theory Spec2Isabelle
  imports Complex_Main
begin

section \<open>JavaScript values and JSON documents\<close>

text \<open>
  The two programs of the repository are \<^verbatim>\<open>prove.js\<close> (a command-line prover) and
  \<^verbatim>\<open>prover-service/index.js\<close> (an HTTP service). Both pass JavaScript values
  around and serialise them with \<^verbatim>\<open>JSON.stringify\<close>.

  A JavaScript number is a binary64 value. The programs only test numbers for
  truthiness and serialise them, and for both purposes \<open>+0\<close> and \<open>-0\<close> behave
  alike, so a finite number is kept as the rational it denotes.
\<close>

datatype jsnum = NaN | Infinite bool | Finite rat

datatype jsval =
    JUndefined
  | JNull
  | JBool bool
  | JNumber jsnum
  | JBigInt int
  | JString string
  | JArray "jsval list"
  | JObject "(string \<times> jsval) list"

text \<open>
  A JSON document, as a tree. JSON has no \<^verbatim>\<open>undefined\<close>, no BigInt and no
  non-finite number. \<open>JsonNumber r\<close> is a native JSON number token for the
  double \<open>r\<close>: the tree keeps the double and not the digits of the token, which
  \<^verbatim>\<open>JSON.stringify\<close> chooses as the shortest that read back as \<open>r\<close>.
\<close>

datatype json =
    JsonNull
  | JsonBool bool
  | JsonNumber rat
  | JsonString string
  | JsonArray "json list"
  | JsonObject "(string \<times> json) list"

text \<open>
  A thrown value: an Error object with its \<^verbatim>\<open>name\<close>, \<^verbatim>\<open>message\<close> and
  \<^verbatim>\<open>stack\<close>, or some other (non-nullish) value that has no \<^verbatim>\<open>message\<close>
  property, kept as the text \<^verbatim>\<open>String(err)\<close> gives for it.
\<close>

datatype thrown = ErrorObj string string string | ThrownOther string

text \<open>\<^verbatim>\<open>!v\<close>: the falsy values of JavaScript.\<close>

fun falsy :: "jsval \<Rightarrow> bool" where
  "falsy JUndefined = True"
| "falsy JNull = True"
| "falsy (JBool b) = (\<not> b)"
| "falsy (JNumber n) = (n = NaN \<or> n = Finite 0)"
| "falsy (JBigInt i) = (i = 0)"
| "falsy (JString s) = (s = [])"
| "falsy (JArray xs) = False"
| "falsy (JObject kvs) = False"

subsection \<open>\<^verbatim>\<open>BigInt.prototype.toString\<close>\<close>








subsection \<open>\<^verbatim>\<open>stringifyBigInts\<close> (prove.js, lines 25-30)\<close>


subsection \<open>\<^verbatim>\<open>JSON.stringify\<close>\<close>

text \<open>
  The serialisation algorithm of the language: \<^verbatim>\<open>undefined\<close> has no
  serialisation (\<open>None\<close>), is left out of an object and becomes \<^verbatim>\<open>null\<close> in an
  array; a non-finite number becomes \<^verbatim>\<open>null\<close>; a BigInt cannot be serialised
  (\<^verbatim>\<open>JSON.stringify\<close> below throws the TypeError for it).
\<close>

datatype not_serializable = BigInt_value

fun SerializeJSONProperty :: "jsval \<Rightarrow> not_serializable + json option"
  and SerializeJSONArray :: "jsval list \<Rightarrow> not_serializable + json list"
  and SerializeJSONObject ::
    "(string \<times> jsval) list \<Rightarrow> not_serializable + (string \<times> json) list" where
  "SerializeJSONProperty JUndefined = Inr None"
| "SerializeJSONProperty JNull = Inr (Some JsonNull)"
| "SerializeJSONProperty (JBool b) = Inr (Some (JsonBool b))"
| "SerializeJSONProperty (JNumber n) =
     Inr (Some (case n of Finite r \<Rightarrow> JsonNumber r | _ \<Rightarrow> JsonNull))"
| "SerializeJSONProperty (JBigInt i) = Inl BigInt_value"
| "SerializeJSONProperty (JString s) = Inr (Some (JsonString s))"
| "SerializeJSONProperty (JArray xs) =
     (case SerializeJSONArray xs of Inl e \<Rightarrow> Inl e | Inr js \<Rightarrow> Inr (Some (JsonArray js)))"
| "SerializeJSONProperty (JObject kvs) =
     (case SerializeJSONObject kvs of Inl e \<Rightarrow> Inl e | Inr ps \<Rightarrow> Inr (Some (JsonObject ps)))"
| "SerializeJSONArray [] = Inr []"
| "SerializeJSONArray (x # xs) =
     (case SerializeJSONProperty x of
        Inl e \<Rightarrow> Inl e
      | Inr j \<Rightarrow>
          (case SerializeJSONArray xs of
             Inl e \<Rightarrow> Inl e
           | Inr js \<Rightarrow> Inr ((case j of None \<Rightarrow> JsonNull | Some v \<Rightarrow> v) # js)))"
| "SerializeJSONObject [] = Inr []"
| "SerializeJSONObject (kv # kvs) =
     (case SerializeJSONProperty (snd kv) of
        Inl e \<Rightarrow> Inl e
      | Inr j \<Rightarrow>
          (case SerializeJSONObject kvs of
             Inl e \<Rightarrow> Inl e
           | Inr ps \<Rightarrow> Inr ((case j of None \<Rightarrow> [] | Some v \<Rightarrow> [(fst kv, v)]) @ ps)))"

section \<open>The world outside the programs\<close>

text \<open>
  What the programs call and do not define: the environment variables, the file
  system, \<^verbatim>\<open>path.join\<close>, \<^verbatim>\<open>JSON.parse\<close>, the clock and the snarkjs library.
  \<open>fullProve\<close> gives the \<^verbatim>\<open>proof\<close> and \<^verbatim>\<open>publicSignals\<close> properties of the
  value snarkjs resolves with (\<open>JUndefined\<close> for a property that is not there), or
  what it throws. The call also prints: snarkjs sends the \<^verbatim>\<open>log()\<close> lines of the
  circuit to standard output and, before it throws, its \<^verbatim>\<open>ERROR: ...\<close> lines to
  standard error. \<open>fullProve_prints\<close> gives the lines of one call, those for
  standard output first.
  \<open>Date_now_at n\<close> is what the \<open>n\<close>-th call of \<^verbatim>\<open>Date.now()\<close> returns, and
  \<open>captureStack name m\<close> the stack text the engine gives an error object of that
  name made with the message \<open>m\<close>.
\<close>

record env =
  CIRCUIT_DIR :: "string option"
  NODE_ENV :: "string option"
  dirname :: string
  path_join :: "string \<Rightarrow> string \<Rightarrow> string"
  existsSync :: "string \<Rightarrow> bool"
  readFileSync :: "string \<Rightarrow> thrown + string"
  readdirSync :: "string \<Rightarrow> thrown + string list"
  JSON_parse :: "string \<Rightarrow> thrown + jsval"
  fullProve :: "jsval \<Rightarrow> string \<Rightarrow> string \<Rightarrow> thrown + jsval \<times> jsval"
  fullProve_prints :: "jsval \<Rightarrow> string \<Rightarrow> string \<Rightarrow> string list \<times> string list"
  exportVerificationKey :: "string \<Rightarrow> thrown + jsval"
  groth16_verify :: "jsval \<Rightarrow> jsval \<Rightarrow> jsval \<Rightarrow> thrown + bool"
  Date_now_at :: "nat \<Rightarrow> int"
  captureStack :: "string \<Rightarrow> string \<Rightarrow> string"

definition new_Error :: "env \<Rightarrow> string \<Rightarrow> thrown" where
  "new_Error e m = ErrorObj ''Error'' m (captureStack e ''Error'' m)"

definition new_TypeError :: "env \<Rightarrow> string \<Rightarrow> thrown" where
  "new_TypeError e m = ErrorObj ''TypeError'' m (captureStack e ''TypeError'' m)"

text \<open>\<^verbatim>\<open>JSON.stringify(v)\<close>: the serialisation, or the TypeError thrown for a BigInt.\<close>

definition JSON_stringify :: "env \<Rightarrow> jsval \<Rightarrow> thrown + json option" where
  "JSON_stringify e v =
     (case SerializeJSONProperty v of
        Inl BigInt_value \<Rightarrow> Inl (new_TypeError e ''Do not know how to serialize a BigInt'')
      | Inr j \<Rightarrow> Inr j)"

section \<open>The command-line prover (prove.js)\<close>











section \<open>The prover service (prover-service/index.js)\<close>

subsection \<open>State\<close>

text \<open>
  \<^verbatim>\<open>circuits\<close> is a JavaScript \<^verbatim>\<open>Map\<close>: its keys are enumerated in insertion
  order, so it is an association list. The state also keeps the calls the service
  has made to the file system and to snarkjs, and how often it has read the clock.
\<close>

record circuit =
  wasm :: string
  zkey :: string

datatype call =
    ExistsSync string
  | ReadFileSync string
  | ReaddirSync string
  | FullProve jsval string string
  | ExportVerificationKey string
  | Groth16Verify jsval jsval jsval

record server =
  circuits :: "(string \<times> circuit) list"
  calls :: "call list"
  clock :: nat

definition server_start :: server where
  "server_start = \<lparr>circuits = [], calls = [], clock = 0\<rparr>"

fun Map_get :: "('k \<times> 'v) list \<Rightarrow> 'k \<Rightarrow> 'v option" where
  "Map_get [] k = None"
| "Map_get ((k', v) # m) k = (if k' = k then Some v else Map_get m k)"

text \<open>\<^verbatim>\<open>Map.prototype.set\<close>: an existing key keeps its place, a new key goes last.\<close>

fun Map_set :: "('k \<times> 'v) list \<Rightarrow> 'k \<Rightarrow> 'v \<Rightarrow> ('k \<times> 'v) list" where
  "Map_set [] k v = [(k, v)]"
| "Map_set ((k', v') # m) k v = (if k' = k then (k, v) # m else (k', v') # Map_set m k v)"

definition Map_keys :: "('k \<times> 'v) list \<Rightarrow> 'k list" where
  "Map_keys m = map fst m"

definition called :: "call \<Rightarrow> server \<Rightarrow> server" where
  "called c s = s\<lparr>calls := calls s @ [c]\<rparr>"

definition Date_now :: "env \<Rightarrow> server \<Rightarrow> int \<times> server" where
  "Date_now e s = (Date_now_at e (clock s), s\<lparr>clock := Suc (clock s)\<rparr>)"

subsection \<open>\<^verbatim>\<open>loadCircuit\<close> (lines 25-58)\<close>

text \<open>\<^verbatim>\<open>process.env.CIRCUIT_DIR || path.join(__dirname, 'circuits')\<close>\<close>

definition circuitDir :: "env \<Rightarrow> string" where
  "circuitDir e =
     (case CIRCUIT_DIR e of
        None \<Rightarrow> path_join e (dirname e) ''circuits''
      | Some d \<Rightarrow> if d = [] then path_join e (dirname e) ''circuits'' else d)"

definition wasmPath_of :: "env \<Rightarrow> string \<Rightarrow> string" where
  "wasmPath_of e circuitType = path_join e (circuitDir e) (circuitType @ ''.wasm'')"

definition zkeyPath_of :: "env \<Rightarrow> string \<Rightarrow> string" where
  "zkeyPath_of e circuitType = path_join e (circuitDir e) (circuitType @ ''_final.zkey'')"

text \<open>
  The function is \<^verbatim>\<open>async\<close> but awaits nothing: a call runs from its first
  statement to its \<^verbatim>\<open>return\<close> or \<^verbatim>\<open>throw\<close> as one step of the event loop.
  The \<^verbatim>\<open>catch\<close> block logs and rethrows, and the console is not part of the state.
  \<open>circuitType\<close> is a string, as the interface declares it.
\<close>

definition loadCircuit :: "env \<Rightarrow> string \<Rightarrow> server \<Rightarrow> (thrown + circuit) \<times> server" where
  "loadCircuit e circuitType s =
     (case Map_get (circuits s) circuitType of
        Some c \<Rightarrow> (Inr c, s)
      | None \<Rightarrow>
          (let wasmPath = wasmPath_of e circuitType;
               zkeyPath = zkeyPath_of e circuitType;
               s1 = called (ExistsSync wasmPath) s
           in if \<not> existsSync e wasmPath
              then (Inl (new_Error e (''WASM file not found: '' @ wasmPath)), s1)
              else
                (let s2 = called (ExistsSync zkeyPath) s1
                 in if \<not> existsSync e zkeyPath
                    then (Inl (new_Error e (''ZKey file not found: '' @ zkeyPath)), s2)
                    else
                      (let c = \<lparr>wasm = wasmPath, zkey = zkeyPath\<rparr>
                       in (Inr c, s2\<lparr>circuits := Map_set (circuits s2) circuitType c\<rparr>)))))"

subsection \<open>Responses\<close>

record response =
  status :: nat
  body :: "json option"

text \<open>\<^verbatim>\<open>res.status(code).json(obj)\<close>: the body is \<^verbatim>\<open>JSON.stringify(obj)\<close>, which may throw.\<close>

definition res_json :: "env \<Rightarrow> nat \<Rightarrow> jsval \<Rightarrow> thrown + response" where
  "res_json e code obj =
     (case JSON_stringify e obj of
        Inl err \<Rightarrow> Inl err
      | Inr b \<Rightarrow> Inr \<lparr>status = code, body = b\<rparr>)"

fun message_of :: "thrown \<Rightarrow> jsval" where
  "message_of (ErrorObj name message stack) = JString message"
| "message_of (ThrownOther s) = JUndefined"

fun stack_of :: "thrown \<Rightarrow> jsval" where
  "stack_of (ErrorObj name message stack) = JString stack"
| "stack_of (ThrownOther s) = JUndefined"

text \<open>
  The \<^verbatim>\<open>catch\<close> block of both handlers:
  \<^verbatim>\<open>res.status(500).json({ error: error.message,
       stack: process.env.NODE_ENV === 'development' ? error.stack : undefined })\<close>
\<close>

definition error_object :: "env \<Rightarrow> thrown \<Rightarrow> jsval" where
  "error_object e err =
     JObject [(''error'', message_of err),
              (''stack'', if NODE_ENV e = Some ''development'' then stack_of err else JUndefined)]"

definition caught :: "env \<Rightarrow> thrown \<Rightarrow> response" where
  "caught e err =
     (case res_json e 500 (error_object e err) of
        Inl err' \<Rightarrow> \<lparr>status = 500, body = None\<rparr>
      | Inr r \<Rightarrow> r)"

definition bad_request :: "string \<Rightarrow> response" where
  "bad_request m = \<lparr>status = 400, body = Some (JsonObject [(''error'', JsonString m)])\<rparr>"

definition number_of_int :: "int \<Rightarrow> jsval" where
  "number_of_int i = JNumber (Finite (of_int i))"

definition metadata :: "string \<Rightarrow> int \<Rightarrow> int \<Rightarrow> jsval" where
  "metadata circuitType duration timestamp =
     JObject [(''circuitType'', JString circuitType),
              (''duration'', number_of_int duration),
              (''timestamp'', number_of_int timestamp)]"

subsection \<open>\<^verbatim>\<open>GET /health\<close> (lines 63-70)\<close>

definition get_health :: "server \<Rightarrow> response" where
  "get_health s =
     \<lparr>status = 200,
      body = Some (JsonObject
        [(''status'', JsonString ''ok''),
         (''service'', JsonString ''shadowpay-prover''),
         (''version'', JsonString ''1.0.0''),
         (''loadedCircuits'', JsonArray (map JsonString (Map_keys (circuits s))))])\<rparr>"

subsection \<open>\<^verbatim>\<open>POST /prove\<close> (lines 75-116)\<close>

text \<open>
  The parsed request body: each property is there or not; \<open>circuitType\<close> is a string
  when it is there.
\<close>

record prove_body =
  input :: "jsval option"
  prove_circuitType :: "string option"

definition default_circuitType :: "string option \<Rightarrow> string" where
  "default_circuitType c = (case c of None \<Rightarrow> ''spending'' | Some t \<Rightarrow> t)"

definition post_prove :: "env \<Rightarrow> prove_body \<Rightarrow> server \<Rightarrow> response \<times> server" where
  "post_prove e b s =
     (let circuitType = default_circuitType (prove_circuitType b)
      in case input b of
           None \<Rightarrow> (bad_request ''Missing input parameter'', s)
         | Some inp \<Rightarrow>
             if falsy inp then (bad_request ''Missing input parameter'', s)
             else
               (let (startTime, s1) = Date_now e s;
                    (loaded, s2) = loadCircuit e circuitType s1
                in case loaded of
                     Inl err \<Rightarrow> (caught e err, s2)
                   | Inr c \<Rightarrow>
                       (let s3 = called (FullProve inp (wasm c) (zkey c)) s2
                        in case fullProve e inp (wasm c) (zkey c) of
                             Inl err \<Rightarrow> (caught e err, s3)
                           | Inr (proof, publicSignals) \<Rightarrow>
                               (let (t1, s4) = Date_now e s3;
                                    duration = t1 - startTime;
                                    (t2, s5) = Date_now e s4
                                in case res_json e 200
                                          (JObject [(''proof'', proof),
                                                    (''publicSignals'', publicSignals),
                                                    (''metadata'', metadata circuitType duration t2)]) of
                                     Inl err \<Rightarrow> (caught e err, s5)
                                   | Inr r \<Rightarrow> (r, s5)))))"

subsection \<open>\<^verbatim>\<open>POST /verify\<close> (lines 121-166)\<close>

record verify_body =
  proof_of :: "jsval option"
  publicSignals_of :: "jsval option"
  verify_circuitType :: "string option"

text \<open>
  \<^verbatim>\<open>String.prototype.replace\<close> with a string pattern: the first occurrence only.
\<close>

fun replace :: "string \<Rightarrow> string \<Rightarrow> string \<Rightarrow> string" where
  "replace [] pat rep = (if pat = [] then rep else [])"
| "replace (c # cs) pat rep =
     (if take (length pat) (c # cs) = pat then rep @ drop (length pat) (c # cs)
      else c # replace cs pat rep)"

definition vKeyPath_of :: "circuit \<Rightarrow> string" where
  "vKeyPath_of c = replace (zkey c) ''_final.zkey'' ''_verification_key.json''"

text \<open>Lines 134-142: the verification key, from its own file or from the proving key.\<close>

definition load_vKey :: "env \<Rightarrow> circuit \<Rightarrow> server \<Rightarrow> (thrown + jsval) \<times> server" where
  "load_vKey e c s =
     (let vKeyPath = vKeyPath_of c;
          s1 = called (ExistsSync vKeyPath) s
      in if existsSync e vKeyPath
         then
           (let s2 = called (ReadFileSync vKeyPath) s1
            in case readFileSync e vKeyPath of
                 Inl err \<Rightarrow> (Inl err, s2)
               | Inr text \<Rightarrow> (JSON_parse e text, s2))
         else (exportVerificationKey e (zkey c), called (ExportVerificationKey (zkey c)) s1))"

definition valid_object :: "bool \<Rightarrow> string \<Rightarrow> int \<Rightarrow> int \<Rightarrow> jsval" where
  "valid_object isValid circuitType duration timestamp =
     JObject [(''valid'', JBool isValid), (''metadata'', metadata circuitType duration timestamp)]"

definition missing :: "jsval option \<Rightarrow> bool" where
  "missing v = (case v of None \<Rightarrow> True | Some x \<Rightarrow> falsy x)"

definition post_verify :: "env \<Rightarrow> verify_body \<Rightarrow> server \<Rightarrow> response \<times> server" where
  "post_verify e b s =
     (let circuitType = default_circuitType (verify_circuitType b)
      in case (proof_of b, publicSignals_of b) of
           (Some proof, Some publicSignals) \<Rightarrow>
             if falsy proof \<or> falsy publicSignals
             then (bad_request ''Missing proof or publicSignals'', s)
             else
               (let (startTime, s1) = Date_now e s;
                    (loaded, s2) = loadCircuit e circuitType s1
                in case loaded of
                     Inl err \<Rightarrow> (caught e err, s2)
                   | Inr c \<Rightarrow>
                       (let (key, s3) = load_vKey e c s2
                        in case key of
                             Inl err \<Rightarrow> (caught e err, s3)
                           | Inr vKey \<Rightarrow>
                               (let s4 = called (Groth16Verify vKey publicSignals proof) s3
                                in case groth16_verify e vKey publicSignals proof of
                                     Inl err \<Rightarrow> (caught e err, s4)
                                   | Inr isValid \<Rightarrow>
                                       (let (t1, s5) = Date_now e s4;
                                            duration = t1 - startTime;
                                            (t2, s6) = Date_now e s5
                                        in case res_json e 200
                                                  (valid_object isValid circuitType duration t2) of
                                             Inl err \<Rightarrow> (caught e err, s6)
                                           | Inr r \<Rightarrow> (r, s6)))))
         | _ \<Rightarrow> (bad_request ''Missing proof or publicSignals'', s))"

subsection \<open>\<^verbatim>\<open>GET /circuits\<close> (lines 171-191)\<close>

definition endsWith :: "string \<Rightarrow> string \<Rightarrow> bool" where
  "endsWith f suffix =
     (length suffix \<le> length f \<and> drop (length f - length suffix) f = suffix)"

definition get_circuits :: "env \<Rightarrow> server \<Rightarrow> response \<times> server" where
  "get_circuits e s =
     (let dir = circuitDir e;
          s1 = called (ExistsSync dir) s
      in if \<not> existsSync e dir
         then (\<lparr>status = 200, body = Some (JsonObject [(''circuits'', JsonArray [])])\<rparr>, s1)
         else
           (let s2 = called (ReaddirSync dir) s1
            in case readdirSync e dir of
                 Inl err \<Rightarrow>
                   (case res_json e 500 (JObject [(''error'', message_of err)]) of
                      Inl err' \<Rightarrow> (\<lparr>status = 500, body = None\<rparr>, s2)
                    | Inr r \<Rightarrow> (r, s2))
               | Inr files \<Rightarrow>
                   (let wasmFiles = filter (\<lambda>f. endsWith f ''.wasm'') files;
                        availableCircuits = map (\<lambda>f. replace f ''.wasm'' []) wasmFiles
                    in (\<lparr>status = 200,
                         body = Some (JsonObject
                           [(''circuits'', JsonArray (map JsonString availableCircuits)),
                            (''loaded'', JsonArray (map JsonString (Map_keys (circuits s2)))),
                            (''circuitDir'', JsonString dir)])\<rparr>, s2))))"

subsection \<open>The routes\<close>

datatype request =
    GetHealth
  | PostProve prove_body
  | PostVerify verify_body
  | GetCircuits

definition handle :: "env \<Rightarrow> request \<Rightarrow> server \<Rightarrow> response \<times> server" where
  "handle e r s =
     (case r of
        GetHealth \<Rightarrow> (get_health s, s)
      | PostProve b \<Rightarrow> post_prove e b s
      | PostVerify b \<Rightarrow> post_verify e b s
      | GetCircuits \<Rightarrow> get_circuits e s)"

text \<open>The service after a sequence of requests, each handled in the world of its moment.\<close>

fun serve :: "(env \<times> request) list \<Rightarrow> server \<Rightarrow> server" where
  "serve [] s = s"
| "serve ((e, r) # rs) s = serve rs (snd (handle e r s))"

section \<open>Notions the properties are stated with\<close>






text \<open>The artifact \<^verbatim>\<open>loadCircuit\<close> builds for a circuit type.\<close>

definition artifact :: "env \<Rightarrow> string \<Rightarrow> circuit" where
  "artifact e circuitType = \<lparr>wasm = wasmPath_of e circuitType, zkey = zkeyPath_of e circuitType\<rparr>"

text \<open>
  Callers of \<^verbatim>\<open>loadCircuit\<close> that are pending at the same time: the function
  never awaits, so the event loop runs the call of one caller to its end before it
  starts the next. \<open>callers e t n s\<close> is what \<open>n\<close> callers asking for \<open>t\<close> receive,
  in the order in which they run, and the state they leave.
\<close>

fun callers :: "env \<Rightarrow> string \<Rightarrow> nat \<Rightarrow> server \<Rightarrow> (thrown + circuit) list \<times> server" where
  "callers e t 0 s = ([], s)"
| "callers e t (Suc n) s =
     (let (r, s1) = loadCircuit e t s;
          (rs, s2) = callers e t n s1
      in (r # rs, s2))"

text \<open>
  A load that gets past the cache starts with one existence check of the
  witness-generator file: the loads run against storage are counted by these checks.
\<close>

definition loads_executed :: "env \<Rightarrow> string \<Rightarrow> server \<Rightarrow> nat" where
  "loads_executed e t s = length (filter (\<lambda>c. c = ExistsSync (wasmPath_of e t)) (calls s))"

text \<open>
  What a load does when a file of the circuit is absent: the existence checks it
  makes, and the error it throws.
\<close>

definition attempt :: "env \<Rightarrow> string \<Rightarrow> call list" where
  "attempt e t =
     (if existsSync e (wasmPath_of e t)
      then [ExistsSync (wasmPath_of e t), ExistsSync (zkeyPath_of e t)]
      else [ExistsSync (wasmPath_of e t)])"

definition failure :: "env \<Rightarrow> string \<Rightarrow> thrown" where
  "failure e t =
     (if existsSync e (wasmPath_of e t)
      then new_Error e (''ZKey file not found: '' @ zkeyPath_of e t)
      else new_Error e (''WASM file not found: '' @ wasmPath_of e t))"

text \<open>
  A cache that agrees with the storage of \<open>e\<close>: each entry is the artifact of its
  circuit type, and both files of it exist.
\<close>

definition consistent :: "env \<Rightarrow> server \<Rightarrow> bool" where
  "consistent e s =
     list_all (\<lambda>(t, c). c = artifact e t \<and> existsSync e (wasm c) \<and> existsSync e (zkey c))
       (circuits s)"

text \<open>The \<^verbatim>\<open>valid\<close> property of a response body, when it has one.\<close>

definition valid_of :: "response \<Rightarrow> bool option" where
  "valid_of r =
     (case body r of
        Some (JsonObject ps) \<Rightarrow>
          (case Map_get ps ''valid'' of Some (JsonBool v) \<Rightarrow> Some v | _ \<Rightarrow> None)
      | _ \<Rightarrow> None)"

text \<open>The names of the properties of the \<^verbatim>\<open>metadata\<close> object of a response body.\<close>

definition metadata_fields :: "response \<Rightarrow> string list option" where
  "metadata_fields r =
     (case body r of
        Some (JsonObject ps) \<Rightarrow>
          (case Map_get ps ''metadata'' of Some (JsonObject ms) \<Rightarrow> Some (map fst ms) | _ \<Rightarrow> None)
      | _ \<Rightarrow> None)"

text \<open>The \<^verbatim>\<open>circuitType\<close> in the \<^verbatim>\<open>metadata\<close> object of a response body.\<close>

definition circuitType_of :: "response \<Rightarrow> json option" where
  "circuitType_of r =
     (case body r of
        Some (JsonObject ps) \<Rightarrow>
          (case Map_get ps ''metadata'' of
             Some (JsonObject ms) \<Rightarrow> Map_get ms ''circuitType''
           | _ \<Rightarrow> None)
      | _ \<Rightarrow> None)"

text \<open>
  The verification-key file beside a proving key: the path of the proving key with
  its ending \<^verbatim>\<open>_final.zkey\<close> exchanged for \<^verbatim>\<open>_verification_key.json\<close>.
\<close>

definition vKey_beside :: "circuit \<Rightarrow> string" where
  "vKey_beside c =
     take (length (zkey c) - length ''_final.zkey'') (zkey c) @ ''_verification_key.json''"

text \<open>\<^verbatim>\<open>String.prototype.indexOf\<close>: where a pattern first occurs, if it does.\<close>

fun indexOf :: "string \<Rightarrow> string \<Rightarrow> nat option" where
  "indexOf [] pat = (if pat = [] then Some 0 else None)"
| "indexOf (c # cs) pat =
     (if take (length pat) (c # cs) = pat then Some 0 else map_option Suc (indexOf cs pat))"

text \<open>
  A proving key whose path holds \<^verbatim>\<open>_final.zkey\<close> as its ending and nowhere before
  it, neither in the directory nor in the circuit type.
\<close>

definition ending_only :: "circuit \<Rightarrow> bool" where
  "ending_only c =
     (indexOf (zkey c) ''_final.zkey'' = Some (length (zkey c) - length ''_final.zkey''))"

section \<open>A concrete world\<close>

text \<open>
  A small world to run the programs in: a file system given by the list of its files
  with their contents, a JSON parser that knows the document \<^verbatim>\<open>{}\<close>, and a prover
  that answers \<open>proved\<close> and prints nothing.
\<close>

definition demo_env :: "(string \<times> string) list \<Rightarrow> (thrown + jsval \<times> jsval) \<Rightarrow> env" where
  "demo_env files proved =
     \<lparr>CIRCUIT_DIR = Some ''/c'',
      NODE_ENV = None,
      dirname = ''/app'',
      path_join = (\<lambda>d f. d @ ''/'' @ f),
      existsSync = (\<lambda>p. Map_get files p \<noteq> None),
      readFileSync = (\<lambda>p. case Map_get files p of
                            Some text \<Rightarrow> Inr text
                          | None \<Rightarrow> Inl (ErrorObj ''Error'' (''ENOENT: no such file or directory, open '' @ p) [])),
      readdirSync = (\<lambda>d. Inr (map fst files)),
      JSON_parse = (\<lambda>text. if text = ''{}'' then Inr (JObject [])
                           else Inl (ErrorObj ''SyntaxError'' ''Unexpected token'' [])),
      fullProve = (\<lambda>inp w z. proved),
      fullProve_prints = (\<lambda>inp w z. ([], [])),
      exportVerificationKey = (\<lambda>z. Inr (JObject [])),
      groth16_verify = (\<lambda>k s p. Inr True),
      Date_now_at = (\<lambda>n. 1000 + int n),
      captureStack = (\<lambda>name m. name @ '': '' @ m)\<rparr>"



definition demo_proof :: "jsval" where
  "demo_proof =
     JObject [(''pi_a'', JArray [JBigInt 18446744073709551617, JBigInt 1]),
              (''protocol'', JString ''groth16'')]"

definition demo_signals :: "jsval" where
  "demo_signals = JArray [JBigInt 18446744073709551629]"


text \<open>The storage after the witness-generator file of the circuit has been removed.\<close>

definition demo_files_without_wasm :: "(string \<times> string) list" where
  "demo_files_without_wasm = [(''/c/spending_final.zkey'', ''zkey'')]"

text \<open>A proving key in a directory whose name holds \<^verbatim>\<open>_final.zkey\<close>.\<close>

definition demo_circuit_in_named_directory :: circuit where
  "demo_circuit_in_named_directory =
     \<lparr>wasm = ''/c/x_final.zkey.d/spending.wasm'',
      zkey = ''/c/x_final.zkey.d/spending_final.zkey''\<rparr>"

definition demo_proved :: "thrown + jsval \<times> jsval" where
  "demo_proved = Inr (demo_proof, demo_signals)"

text \<open>What snarkjs gives the service: a proof and public signals made of strings.\<close>

definition demo_service_proved :: "thrown + jsval \<times> jsval" where
  "demo_service_proved =
     Inr (JObject [(''protocol'', JString ''groth16'')], JArray [JString ''1''])"

definition demo_circuit_files :: "(string \<times> string) list" where
  "demo_circuit_files = [(''/c/spending.wasm'', ''wasm''), (''/c/spending_final.zkey'', ''zkey'')]"

text \<open>The same files, and a verification-key file that is not JSON.\<close>

definition demo_bad_key_files :: "(string \<times> string) list" where
  "demo_bad_key_files =
     demo_circuit_files @ [(''/c/spending_verification_key.json'', ''oops'')]"

definition demo_prove_body :: prove_body where
  "demo_prove_body = \<lparr>input = Some (JObject []), prove_circuitType = None\<rparr>"

definition demo_verify_body :: verify_body where
  "demo_verify_body =
     \<lparr>proof_of = Some (JObject [(''protocol'', JString ''groth16'')]),
      publicSignals_of = Some (JArray [JString ''1'']),
      verify_circuitType = None\<rparr>"

section \<open>Properties\<close>

section \<open>Decimal strings\<close>











section \<open>Serialisation after \<open>stringifyBigInts\<close>\<close>






section \<open>The command-line prover\<close>











lemma demo_fullProve: "fullProve (demo_env files proved) inp w z = proved"
  by (simp add: demo_env_def)














section \<open>The circuit cache\<close>

lemma Map_get_Map_set: "Map_get (Map_set m k v) k' = (if k' = k then Some v else Map_get m k')"
  by (induction m) auto

lemma Map_set_new: "Map_get m k = None \<Longrightarrow> Map_set m k v = m @ [(k, v)]"
  by (induction m) (auto split: if_splits)

lemma Map_get_None_keys: "Map_get m k = None \<longleftrightarrow> k \<notin> set (Map_keys m)"
  by (induction m) (auto simp: Map_keys_def split: if_splits)

lemma Map_get_Some_set: "Map_get m k = Some v \<Longrightarrow> (k, v) \<in> set m"
  by (induction m) (auto split: if_splits)

lemma circuits_called [simp]: "circuits (called c s) = circuits s"
  by (simp add: called_def)

lemma calls_called [simp]: "calls (called c s) = calls s @ [c]"
  by (simp add: called_def)

lemma clock_called [simp]: "clock (called c s) = clock s"
  by (simp add: called_def)

lemma loadCircuit_cached:
  "Map_get (circuits s) t = Some c \<Longrightarrow> loadCircuit e t s = (Inr c, s)"
  by (simp add: loadCircuit_def)

lemma loadCircuit_no_wasm:
  "Map_get (circuits s) t = None \<Longrightarrow> \<not> existsSync e (wasmPath_of e t) \<Longrightarrow>
   loadCircuit e t s =
     (Inl (new_Error e (''WASM file not found: '' @ wasmPath_of e t)),
      called (ExistsSync (wasmPath_of e t)) s)"
  by (simp add: loadCircuit_def Let_def)

lemma loadCircuit_no_zkey:
  "Map_get (circuits s) t = None \<Longrightarrow> existsSync e (wasmPath_of e t) \<Longrightarrow>
   \<not> existsSync e (zkeyPath_of e t) \<Longrightarrow>
   loadCircuit e t s =
     (Inl (new_Error e (''ZKey file not found: '' @ zkeyPath_of e t)),
      called (ExistsSync (zkeyPath_of e t)) (called (ExistsSync (wasmPath_of e t)) s))"
  by (simp add: loadCircuit_def Let_def)

lemma loadCircuit_loaded:
  "Map_get (circuits s) t = None \<Longrightarrow> existsSync e (wasmPath_of e t) \<Longrightarrow>
   existsSync e (zkeyPath_of e t) \<Longrightarrow>
   loadCircuit e t s =
     (Inr (artifact e t),
      (called (ExistsSync (zkeyPath_of e t)) (called (ExistsSync (wasmPath_of e t)) s))
        \<lparr>circuits := circuits s @ [(t, artifact e t)]\<rparr>)"
  by (simp add: loadCircuit_def artifact_def Map_set_new Let_def)

lemma loadCircuit_Inl_uncached:
  "loadCircuit e t s = (Inl err, s') \<Longrightarrow> Map_get (circuits s) t = None"
  by (cases "Map_get (circuits s) t") (simp_all add: loadCircuit_cached)

lemma loadCircuit_Inl_circuits:
  assumes "loadCircuit e t s = (Inl err, s')"
  shows "circuits s' = circuits s"
proof -
  have u: "Map_get (circuits s) t = None"
    using assms by (rule loadCircuit_Inl_uncached)
  show ?thesis
  proof (cases "existsSync e (wasmPath_of e t)")
    case False
    with u assms show ?thesis by (auto simp: loadCircuit_no_wasm)
  next
    case True
    show ?thesis
    proof (cases "existsSync e (zkeyPath_of e t)")
      case False
      with u True assms show ?thesis by (auto simp: loadCircuit_no_zkey)
    next
      case z: True
      with u True assms show ?thesis by (simp add: loadCircuit_loaded)
    qed
  qed
qed

lemma loadCircuit_attempt:
  assumes "Map_get (circuits s) t = None"
  shows "\<exists>more. calls (snd (loadCircuit e t s)) = calls s @ ExistsSync (wasmPath_of e t) # more"
proof (cases "existsSync e (wasmPath_of e t)")
  case False
  with assms show ?thesis by (simp add: loadCircuit_no_wasm)
next
  case True
  with assms show ?thesis
    by (cases "existsSync e (zkeyPath_of e t)")
      (simp_all add: loadCircuit_no_zkey loadCircuit_loaded)
qed

lemma loadCircuit_keys:
  assumes "k \<in> set (Map_keys (circuits (snd (loadCircuit e t s))))"
  shows "k \<in> set (Map_keys (circuits s)) \<or>
         (k = t \<and> existsSync e (wasmPath_of e t) \<and> existsSync e (zkeyPath_of e t))"
proof (cases "Map_get (circuits s) t")
  case (Some c)
  with assms show ?thesis by (simp add: loadCircuit_cached)
next
  case None
  show ?thesis
  proof (cases "existsSync e (wasmPath_of e t)")
    case False
    with None assms show ?thesis by (simp add: loadCircuit_no_wasm)
  next
    case True
    with None assms show ?thesis
      by (cases "existsSync e (zkeyPath_of e t)")
        (auto simp: loadCircuit_no_zkey loadCircuit_loaded Map_keys_def)
  qed
qed

lemma demo_wasmPath: "wasmPath_of (demo_env files proved) ''spending'' = ''/c/spending.wasm''"
  by (simp add: wasmPath_of_def circuitDir_def demo_env_def)

lemma demo_zkeyPath:
  "zkeyPath_of (demo_env files proved) ''spending'' = ''/c/spending_final.zkey''"
  by (simp add: zkeyPath_of_def circuitDir_def demo_env_def)

lemma demo_existsSync: "existsSync (demo_env files proved) p = (Map_get files p \<noteq> None)"
  by (simp add: demo_env_def)

lemma demo_new_Error: "new_Error (demo_env files proved) m = ErrorObj ''Error'' m (''Error: '' @ m)"
  by (simp add: new_Error_def demo_env_def)

lemma server_start_uncached: "Map_get (circuits server_start) t = None"
  by (simp add: server_start_def)

text \<open>
  C4. For a circuit type that is not cached, \<^verbatim>\<open>loadCircuit\<close> throws exactly when
  the witness-generator file or the proving-key file is absent from the circuit
  directory: \<open>WASM file not found\<close> when the first is absent, \<open>ZKey file not found\<close>
  when only the second is. When both are present it returns the artifact.
\<close>

theorem C4_load_fails_iff_artifact_absent:
  assumes "Map_get (circuits s) t = None"
  shows "fst (loadCircuit e t s) =
           (if \<not> existsSync e (wasmPath_of e t)
            then Inl (new_Error e (''WASM file not found: '' @ wasmPath_of e t))
            else if \<not> existsSync e (zkeyPath_of e t)
            then Inl (new_Error e (''ZKey file not found: '' @ zkeyPath_of e t))
            else Inr \<lparr>wasm = wasmPath_of e t, zkey = zkeyPath_of e t\<rparr>) \<and>
         ((\<exists>err. fst (loadCircuit e t s) = Inl err) \<longleftrightarrow>
          (\<not> existsSync e (wasmPath_of e t) \<or> \<not> existsSync e (zkeyPath_of e t)))"
  using assms
  by (auto simp: loadCircuit_no_wasm loadCircuit_no_zkey loadCircuit_loaded artifact_def)

theorem C4_load_fails_iff_artifact_absent_witness:
  "Map_get (circuits server_start) ''spending'' = None \<and>
   fst (loadCircuit (demo_env [(''/c/spending.wasm'', ''wasm'')] demo_proved) ''spending'' server_start) =
     Inl (ErrorObj ''Error'' ''ZKey file not found: /c/spending_final.zkey''
            ''Error: ZKey file not found: /c/spending_final.zkey'') \<and>
   fst (loadCircuit (demo_env demo_circuit_files demo_proved) ''spending'' server_start) =
     Inr \<lparr>wasm = ''/c/spending.wasm'', zkey = ''/c/spending_final.zkey''\<rparr>"
  using C4_load_fails_iff_artifact_absent
      [OF server_start_uncached, of "demo_env [(''/c/spending.wasm'', ''wasm'')] demo_proved" "''spending''"]
    C4_load_fails_iff_artifact_absent
      [OF server_start_uncached, of "demo_env demo_circuit_files demo_proved" "''spending''"]
  by (simp add: server_start_uncached demo_wasmPath demo_zkeyPath demo_existsSync demo_new_Error
      demo_circuit_files_def)

text \<open>
  C10. A load that fails leaves the cache as it was: nothing is inserted, so
  \<^verbatim>\<open>GET /health\<close> answers as before, and the next call for the same circuit type
  goes to storage again (and succeeds once both files are there). A key appears in
  the cache, and so in \<open>loadedCircuits\<close>, only by a load that found both files.
\<close>

theorem C10_failed_load_leaves_cache:
  assumes "loadCircuit e t s = (Inl err, s')"
  shows "circuits s' = circuits s \<and>
         get_health s' = get_health s \<and>
         t \<notin> set (Map_keys (circuits s')) \<and>
         (\<exists>more. calls (snd (loadCircuit e' t s')) =
                   calls s' @ ExistsSync (wasmPath_of e' t) # more) \<and>
         (existsSync e' (wasmPath_of e' t) \<and> existsSync e' (zkeyPath_of e' t) \<longrightarrow>
            fst (loadCircuit e' t s') = Inr (artifact e' t)) \<and>
         (\<forall>k. k \<in> set (Map_keys (circuits (snd (loadCircuit e2 t2 s2)))) \<longrightarrow>
            k \<in> set (Map_keys (circuits s2)) \<or>
            (k = t2 \<and> existsSync e2 (wasmPath_of e2 t2) \<and> existsSync e2 (zkeyPath_of e2 t2)))"
proof -
  have same: "circuits s' = circuits s"
    using assms by (rule loadCircuit_Inl_circuits)
  have "Map_get (circuits s) t = None"
    using assms by (rule loadCircuit_Inl_uncached)
  with same have u: "Map_get (circuits s') t = None" by simp
  have "get_health s' = get_health s"
    by (simp add: get_health_def same)
  moreover have "t \<notin> set (Map_keys (circuits s'))"
    using u by (simp add: Map_get_None_keys)
  moreover have "\<exists>more. calls (snd (loadCircuit e' t s')) =
                   calls s' @ ExistsSync (wasmPath_of e' t) # more"
    using u by (rule loadCircuit_attempt)
  moreover have "existsSync e' (wasmPath_of e' t) \<and> existsSync e' (zkeyPath_of e' t) \<longrightarrow>
            fst (loadCircuit e' t s') = Inr (artifact e' t)"
    using u by (simp add: loadCircuit_loaded)
  ultimately show ?thesis
    using same loadCircuit_keys by blast
qed

theorem C10_failed_load_leaves_cache_witness:
  "loadCircuit (demo_env [] demo_proved) ''spending'' server_start =
     (Inl (ErrorObj ''Error'' ''WASM file not found: /c/spending.wasm''
             ''Error: WASM file not found: /c/spending.wasm''),
      called (ExistsSync ''/c/spending.wasm'') server_start) \<and>
   circuits (called (ExistsSync ''/c/spending.wasm'') server_start) = circuits server_start \<and>
   fst (loadCircuit (demo_env demo_circuit_files demo_proved) ''spending''
          (called (ExistsSync ''/c/spending.wasm'') server_start)) =
     Inr \<lparr>wasm = ''/c/spending.wasm'', zkey = ''/c/spending_final.zkey''\<rparr>"
proof -
  have l: "loadCircuit (demo_env [] demo_proved) ''spending'' server_start =
     (Inl (ErrorObj ''Error'' ''WASM file not found: /c/spending.wasm''
             ''Error: WASM file not found: /c/spending.wasm''),
      called (ExistsSync ''/c/spending.wasm'') server_start)"
    using loadCircuit_no_wasm [OF server_start_uncached, of "demo_env [] demo_proved" "''spending''"]
    by (simp add: demo_wasmPath demo_existsSync demo_new_Error)
  from C10_failed_load_leaves_cache [OF l, of "demo_env demo_circuit_files demo_proved"] l
  show ?thesis
    by (simp add: demo_wasmPath demo_zkeyPath demo_existsSync demo_circuit_files_def artifact_def)
qed

section \<open>Callers pending together\<close>

lemma callers_cached:
  "Map_get (circuits s) t = Some c \<Longrightarrow> callers e t n s = (replicate n (Inr c), s)"
  by (induction n) (simp_all add: loadCircuit_cached)

lemma callers_loaded:
  assumes "Map_get (circuits s) t = None"
    and "existsSync e (wasmPath_of e t)" and "existsSync e (zkeyPath_of e t)"
  shows "callers e t (Suc n) s =
     (replicate (Suc n) (Inr (artifact e t)),
      (called (ExistsSync (zkeyPath_of e t)) (called (ExistsSync (wasmPath_of e t)) s))
        \<lparr>circuits := circuits s @ [(t, artifact e t)]\<rparr>)"
proof -
  let ?s1 = "(called (ExistsSync (zkeyPath_of e t)) (called (ExistsSync (wasmPath_of e t)) s))
        \<lparr>circuits := circuits s @ [(t, artifact e t)]\<rparr>"
  have "Map_get (circuits ?s1) t = Some (artifact e t)"
    using assms(1) Map_get_Map_set [of "circuits s" t "artifact e t" t]
    by (simp add: Map_set_new)
  then have "callers e t n ?s1 = (replicate n (Inr (artifact e t)), ?s1)"
    by (rule callers_cached)
  with assms show ?thesis by (simp add: loadCircuit_loaded)
qed

lemma loadCircuit_failed:
  assumes "Map_get (circuits s) t = None"
    and "\<not> (existsSync e (wasmPath_of e t) \<and> existsSync e (zkeyPath_of e t))"
  shows "loadCircuit e t s = (Inl (failure e t), s\<lparr>calls := calls s @ attempt e t\<rparr>)"
  using assms
  by (cases "existsSync e (wasmPath_of e t)")
    (simp_all add: loadCircuit_no_wasm loadCircuit_no_zkey failure_def attempt_def called_def)

lemma callers_failed:
  assumes "\<not> (existsSync e (wasmPath_of e t) \<and> existsSync e (zkeyPath_of e t))"
  shows "Map_get (circuits s) t = None \<Longrightarrow>
     callers e t n s =
       (replicate n (Inl (failure e t)),
        s\<lparr>calls := calls s @ concat (replicate n (attempt e t))\<rparr>)"
proof (induction n arbitrary: s)
  case 0
  then show ?case by simp
next
  case (Suc n)
  have "Map_get (circuits (s\<lparr>calls := calls s @ attempt e t\<rparr>)) t = None"
    using Suc.prems by simp
  from Suc.IH [OF this] Suc.prems assms show ?case
    by (simp add: loadCircuit_failed)
qed

lemma attempt_count:
  assumes "\<not> (existsSync e (wasmPath_of e t) \<and> existsSync e (zkeyPath_of e t))"
  shows "length (filter (\<lambda>c. c = ExistsSync (wasmPath_of e t)) (concat (replicate n (attempt e t)))) = n"
proof -
  have "filter (\<lambda>c. c = ExistsSync (wasmPath_of e t)) (attempt e t) = [ExistsSync (wasmPath_of e t)]"
    using assms by (auto simp: attempt_def)
  then show ?thesis by (induction n) simp_all
qed

text \<open>
  C9, as amended. Callers of \<^verbatim>\<open>loadCircuit\<close> that are pending together for a
  circuit type that is not cached run one after the other. When both files exist,
  one load runs against storage (the two existence checks of the first caller), every
  caller receives the same artifact, and the cache gains the one complete entry. When
  a file is absent, every caller receives the same error and nothing is inserted, but
  each caller runs the load against storage again.
\<close>

theorem C9_one_load_when_artifacts_exist:
  assumes "Map_get (circuits s) t = None"
  shows "(existsSync e (wasmPath_of e t) \<and> existsSync e (zkeyPath_of e t) \<longrightarrow>
            fst (callers e t (Suc n) s) = replicate (Suc n) (Inr (artifact e t)) \<and>
            calls (snd (callers e t (Suc n) s)) =
              calls s @ [ExistsSync (wasmPath_of e t), ExistsSync (zkeyPath_of e t)] \<and>
            circuits (snd (callers e t (Suc n) s)) = circuits s @ [(t, artifact e t)]) \<and>
         (\<not> (existsSync e (wasmPath_of e t) \<and> existsSync e (zkeyPath_of e t)) \<longrightarrow>
            fst (callers e t n s) = replicate n (Inl (failure e t)) \<and>
            circuits (snd (callers e t n s)) = circuits s \<and>
            loads_executed e t (snd (callers e t n s)) = loads_executed e t s + n)"
proof (intro conjI impI)
  assume ex: "existsSync e (wasmPath_of e t) \<and> existsSync e (zkeyPath_of e t)"
  then have c: "callers e t (Suc n) s =
     (replicate (Suc n) (Inr (artifact e t)),
      (called (ExistsSync (zkeyPath_of e t)) (called (ExistsSync (wasmPath_of e t)) s))
        \<lparr>circuits := circuits s @ [(t, artifact e t)]\<rparr>)"
    using assms by (intro callers_loaded) simp_all
  show "fst (callers e t (Suc n) s) = replicate (Suc n) (Inr (artifact e t))"
    by (simp only: c fst_conv)
  show "calls (snd (callers e t (Suc n) s)) =
      calls s @ [ExistsSync (wasmPath_of e t), ExistsSync (zkeyPath_of e t)]"
    by (simp only: c snd_conv) simp
  show "circuits (snd (callers e t (Suc n) s)) = circuits s @ [(t, artifact e t)]"
    by (simp only: c snd_conv) simp
next
  assume no: "\<not> (existsSync e (wasmPath_of e t) \<and> existsSync e (zkeyPath_of e t))"
  have c: "callers e t n s =
       (replicate n (Inl (failure e t)),
        s\<lparr>calls := calls s @ concat (replicate n (attempt e t))\<rparr>)"
    using no assms by (rule callers_failed)
  show "fst (callers e t n s) = replicate n (Inl (failure e t))"
    by (simp only: c fst_conv)
  show "circuits (snd (callers e t n s)) = circuits s"
    by (simp only: c snd_conv) simp
  show "loads_executed e t (snd (callers e t n s)) = loads_executed e t s + n"
    by (simp only: c snd_conv) (simp add: loads_executed_def attempt_count [OF no])
qed

theorem C9_one_load_when_artifacts_exist_witness:
  "Map_get (circuits server_start) ''spending'' = None \<and>
   fst (callers (demo_env demo_circuit_files demo_proved) ''spending'' 3 server_start) =
     [Inr \<lparr>wasm = ''/c/spending.wasm'', zkey = ''/c/spending_final.zkey''\<rparr>,
      Inr \<lparr>wasm = ''/c/spending.wasm'', zkey = ''/c/spending_final.zkey''\<rparr>,
      Inr \<lparr>wasm = ''/c/spending.wasm'', zkey = ''/c/spending_final.zkey''\<rparr>] \<and>
   calls (snd (callers (demo_env demo_circuit_files demo_proved) ''spending'' 3 server_start)) =
     [ExistsSync ''/c/spending.wasm'', ExistsSync ''/c/spending_final.zkey''] \<and>
   circuits (snd (callers (demo_env [] demo_proved) ''spending'' 3 server_start)) = []"
proof -
  have three: "3 = Suc 2" by simp
  have "replicate (Suc 2) x = [x, x, x]" for x :: "thrown + circuit"
    by (simp add: numeral_2_eq_2)
  with C9_one_load_when_artifacts_exist
      [OF server_start_uncached, of "demo_env demo_circuit_files demo_proved" "''spending''" 2]
    C9_one_load_when_artifacts_exist
      [OF server_start_uncached, of "demo_env [] demo_proved" "''spending''" 3]
  show ?thesis
    unfolding three
    by (simp add: server_start_uncached demo_wasmPath demo_zkeyPath demo_existsSync
        demo_circuit_files_def artifact_def server_start_def)
qed

theorem C9_failed_load_repeated_counterexample:
  "fst (callers (demo_env [] demo_proved) ''spending'' 2 server_start) =
     [Inl (ErrorObj ''Error'' ''WASM file not found: /c/spending.wasm''
             ''Error: WASM file not found: /c/spending.wasm''),
      Inl (ErrorObj ''Error'' ''WASM file not found: /c/spending.wasm''
             ''Error: WASM file not found: /c/spending.wasm'')] \<and>
   calls (snd (callers (demo_env [] demo_proved) ''spending'' 2 server_start)) =
     [ExistsSync ''/c/spending.wasm'', ExistsSync ''/c/spending.wasm''] \<and>
   loads_executed (demo_env [] demo_proved) ''spending''
     (snd (callers (demo_env [] demo_proved) ''spending'' 2 server_start)) = 2"
proof -
  have no: "\<not> (existsSync (demo_env [] demo_proved) (wasmPath_of (demo_env [] demo_proved) ''spending'') \<and>
      existsSync (demo_env [] demo_proved) (zkeyPath_of (demo_env [] demo_proved) ''spending''))"
    by (simp add: demo_existsSync)
  have "callers (demo_env [] demo_proved) ''spending'' 2 server_start =
       (replicate 2 (Inl (failure (demo_env [] demo_proved) ''spending'')),
        server_start\<lparr>calls := calls server_start @
          concat (replicate 2 (attempt (demo_env [] demo_proved) ''spending''))\<rparr>)"
    using no server_start_uncached by (rule callers_failed)
  then show ?thesis
    by (simp add: numeral_2_eq_2 failure_def attempt_def demo_existsSync demo_wasmPath
        demo_new_Error server_start_def loads_executed_def)
qed

section \<open>The request handlers\<close>

lemma status_caught: "status (caught e err) = 500"
  by (simp add: caught_def res_json_def split: sum.split)

lemma caught_ErrorObj:
  "NODE_ENV e \<noteq> Some ''development'' \<Longrightarrow>
   caught e (ErrorObj name message stack) =
     \<lparr>status = 500, body = Some (JsonObject [(''error'', JsonString message)])\<rparr>"
  by (simp add: caught_def res_json_def error_object_def JSON_stringify_def)

lemma circuits_Date_now [simp]: "circuits (snd (Date_now e s)) = circuits s"
  by (simp add: Date_now_def)

lemma calls_Date_now [simp]: "calls (snd (Date_now e s)) = calls s"
  by (simp add: Date_now_def)

lemma post_prove_missing:
  "input b = None \<or> (\<exists>v. input b = Some v \<and> falsy v) \<Longrightarrow>
   post_prove e b s = (bad_request ''Missing input parameter'', s)"
  by (auto simp: post_prove_def)

lemma post_verify_missing:
  "missing (proof_of b) \<or> missing (publicSignals_of b) \<Longrightarrow>
   post_verify e b s = (bad_request ''Missing proof or publicSignals'', s)"
  by (cases "proof_of b"; cases "publicSignals_of b") (auto simp: post_verify_def missing_def)

lemma post_prove_run:
  assumes "input b = Some inp" and "\<not> falsy inp"
    and "loadCircuit e (default_circuitType (prove_circuitType b)) (snd (Date_now e s)) = (loaded, s2)"
  shows "post_prove e b s =
     (case loaded of
        Inl err \<Rightarrow> (caught e err, s2)
      | Inr c \<Rightarrow>
          (case fullProve e inp (wasm c) (zkey c) of
             Inl err \<Rightarrow> (caught e err, called (FullProve inp (wasm c) (zkey c)) s2)
           | Inr (proof, publicSignals) \<Rightarrow>
               (case res_json e 200
                       (JObject [(''proof'', proof), (''publicSignals'', publicSignals),
                                 (''metadata'',
                                  metadata (default_circuitType (prove_circuitType b))
                                    (Date_now_at e (clock s2) - Date_now_at e (clock s))
                                    (Date_now_at e (Suc (clock s2))))]) of
                  Inl err \<Rightarrow>
                    (caught e err,
                     (called (FullProve inp (wasm c) (zkey c)) s2)\<lparr>clock := Suc (Suc (clock s2))\<rparr>)
                | Inr r \<Rightarrow>
                    (r, (called (FullProve inp (wasm c) (zkey c)) s2)\<lparr>clock := Suc (Suc (clock s2))\<rparr>))))"
  using assms
  by (simp add: post_prove_def Date_now_def Let_def split: sum.split prod.split)

lemma post_verify_run:
  assumes "proof_of b = Some pr" and "publicSignals_of b = Some ps"
    and "\<not> falsy pr" and "\<not> falsy ps"
    and "loadCircuit e (default_circuitType (verify_circuitType b)) (snd (Date_now e s)) = (Inr c, s2)"
    and "load_vKey e c s2 = (key, s3)"
  shows "post_verify e b s =
     (case key of
        Inl err \<Rightarrow> (caught e err, s3)
      | Inr vKey \<Rightarrow>
          (case groth16_verify e vKey ps pr of
             Inl err \<Rightarrow> (caught e err, called (Groth16Verify vKey ps pr) s3)
           | Inr isValid \<Rightarrow>
               (case res_json e 200
                       (valid_object isValid (default_circuitType (verify_circuitType b))
                          (Date_now_at e (clock s3) - Date_now_at e (clock s))
                          (Date_now_at e (Suc (clock s3)))) of
                  Inl err \<Rightarrow>
                    (caught e err,
                     (called (Groth16Verify vKey ps pr) s3)\<lparr>clock := Suc (Suc (clock s3))\<rparr>)
                | Inr r \<Rightarrow>
                    (r, (called (Groth16Verify vKey ps pr) s3)\<lparr>clock := Suc (Suc (clock s3))\<rparr>))))"
  using assms
  by (simp add: post_verify_def Date_now_def Let_def split: sum.split prod.split)

lemma post_verify_load_failed:
  assumes "proof_of b = Some pr" and "publicSignals_of b = Some ps"
    and "\<not> falsy pr" and "\<not> falsy ps"
    and "loadCircuit e (default_circuitType (verify_circuitType b)) (snd (Date_now e s)) = (Inl err, s2)"
  shows "post_verify e b s = (caught e err, s2)"
  using assms
  by (simp add: post_verify_def Date_now_def Let_def split: sum.split prod.split)

lemma res_json_valid_object:
  "res_json e 200 (valid_object v t d ts) =
     Inr \<lparr>status = 200,
          body = Some (JsonObject
            [(''valid'', JsonBool v),
             (''metadata'', JsonObject [(''circuitType'', JsonString t),
                                        (''duration'', JsonNumber (of_int d)),
                                        (''timestamp'', JsonNumber (of_int ts))])])\<rparr>"
  by (simp add: res_json_def valid_object_def metadata_def number_of_int_def JSON_stringify_def)

lemma load_vKey_result:
  "fst (load_vKey e c s) =
     (if existsSync e (vKeyPath_of c)
      then (case readFileSync e (vKeyPath_of c) of Inl err \<Rightarrow> Inl err | Inr text \<Rightarrow> JSON_parse e text)
      else exportVerificationKey e (zkey c))"
  by (simp add: load_vKey_def Let_def split: sum.split)

lemma load_vKey_state:
  "snd (load_vKey e c s) =
     (if existsSync e (vKeyPath_of c)
      then called (ReadFileSync (vKeyPath_of c)) (called (ExistsSync (vKeyPath_of c)) s)
      else called (ExportVerificationKey (zkey c)) (called (ExistsSync (vKeyPath_of c)) s))"
  by (simp add: load_vKey_def Let_def split: sum.split)

lemma res_json_prove_body:
  assumes "res_json e 200 (JObject [(''proof'', p), (''publicSignals'', q),
                                  (''metadata'', metadata t d ts)]) = Inr r"
  shows "\<exists>entries.
           SerializeJSONObject [(''proof'', p), (''publicSignals'', q)] = Inr entries \<and>
           r = \<lparr>status = 200,
                body = Some (JsonObject (entries @
                  [(''metadata'', JsonObject [(''circuitType'', JsonString t),
                                             (''duration'', JsonNumber (of_int d)),
                                             (''timestamp'', JsonNumber (of_int ts))])]))\<rparr> \<and>
           metadata_fields r = Some [''circuitType'', ''duration'', ''timestamp'']"
  using assms
  by (auto simp: res_json_def JSON_stringify_def metadata_def number_of_int_def
      metadata_fields_def split: sum.splits option.splits not_serializable.splits)

lemma demo_loadCircuit:
  assumes "circuits s = []"
  shows "loadCircuit (demo_env (demo_circuit_files @ others) proved) ''spending'' s =
     (Inr \<lparr>wasm = ''/c/spending.wasm'', zkey = ''/c/spending_final.zkey''\<rparr>,
      (called (ExistsSync ''/c/spending_final.zkey'') (called (ExistsSync ''/c/spending.wasm'') s))
        \<lparr>circuits := [(''spending'',
            \<lparr>wasm = ''/c/spending.wasm'', zkey = ''/c/spending_final.zkey''\<rparr>)]\<rparr>)"
  using loadCircuit_loaded [of s "''spending''" "demo_env (demo_circuit_files @ others) proved"] assms
  by (simp add: demo_wasmPath demo_zkeyPath demo_existsSync demo_circuit_files_def artifact_def)

lemma demo_post_prove:
  "fst (post_prove (demo_env demo_circuit_files demo_service_proved) demo_prove_body server_start) =
     \<lparr>status = 200,
      body = Some (JsonObject
        [(''proof'', JsonObject [(''protocol'', JsonString ''groth16'')]),
         (''publicSignals'', JsonArray [JsonString ''1'']),
         (''metadata'', JsonObject [(''circuitType'', JsonString ''spending''),
                                    (''duration'', JsonNumber 1),
                                    (''timestamp'', JsonNumber 1002)])])\<rparr>"
proof -
  let ?e = "demo_env demo_circuit_files demo_service_proved"
  have i: "input demo_prove_body = Some (JObject [])" and f: "\<not> falsy (JObject [])"
    and t: "default_circuitType (prove_circuitType demo_prove_body) = ''spending''"
    by (simp_all add: demo_prove_body_def default_circuitType_def)
  have c: "circuits (snd (Date_now ?e server_start)) = []"
    by (simp add: server_start_def)
  have l: "loadCircuit ?e (default_circuitType (prove_circuitType demo_prove_body))
             (snd (Date_now ?e server_start)) =
     (Inr \<lparr>wasm = ''/c/spending.wasm'', zkey = ''/c/spending_final.zkey''\<rparr>,
      (called (ExistsSync ''/c/spending_final.zkey'')
         (called (ExistsSync ''/c/spending.wasm'') (snd (Date_now ?e server_start))))
        \<lparr>circuits := [(''spending'',
            \<lparr>wasm = ''/c/spending.wasm'', zkey = ''/c/spending_final.zkey''\<rparr>)]\<rparr>)"
    unfolding t using demo_loadCircuit [OF c, of "[]" demo_service_proved] by simp
  show ?thesis
    unfolding post_prove_run [OF i f l]
    by (simp add: demo_fullProve demo_service_proved_def res_json_def JSON_stringify_def
        metadata_def number_of_int_def t Date_now_def server_start_def demo_env_def)
qed

text \<open>
  C7, as amended. The body of every successful answer of \<^verbatim>\<open>POST /prove\<close> is the
  proof and the public signals the prover gave, as \<^verbatim>\<open>JSON.stringify\<close> writes them,
  followed by \<open>metadata\<close>, whose fields are exactly \<open>circuitType\<close>, \<open>duration\<close> and
  \<open>timestamp\<close>.
\<close>

theorem C7_prove_response_metadata:
  assumes "post_prove e b s = (r, s')" and "status r = 200"
  shows "\<exists>inp (c::circuit) proof publicSignals entries d ts.
           input b = Some inp \<and>
           fullProve e inp (wasm c) (zkey c) = Inr (proof, publicSignals) \<and>
           SerializeJSONObject [(''proof'', proof), (''publicSignals'', publicSignals)] = Inr entries \<and>
           body r = Some (JsonObject (entries @
             [(''metadata'',
               JsonObject [(''circuitType'', JsonString (default_circuitType (prove_circuitType b))),
                           (''duration'', JsonNumber (of_int d)),
                           (''timestamp'', JsonNumber (of_int ts))])])) \<and>
           metadata_fields r = Some [''circuitType'', ''duration'', ''timestamp'']"
proof (cases "input b")
  case None
  with assms show ?thesis by (auto simp: post_prove_missing bad_request_def)
next
  case (Some inp)
  show ?thesis
  proof (cases "falsy inp")
    case True
    with Some assms show ?thesis by (auto simp: post_prove_missing bad_request_def)
  next
    case False
    obtain loaded s2 where l:
      "loadCircuit e (default_circuitType (prove_circuitType b)) (snd (Date_now e s)) = (loaded, s2)"
      by (cases "loadCircuit e (default_circuitType (prove_circuitType b)) (snd (Date_now e s))")
    note run = post_prove_run [OF Some False l]
    show ?thesis
    proof (cases loaded)
      case (Inl err)
      with run assms show ?thesis by (auto simp: status_caught)
    next
      case (Inr c)
      show ?thesis
      proof (cases "fullProve e inp (wasm c) (zkey c)")
        case (Inl err)
        with run Inr assms show ?thesis by (auto simp: status_caught)
      next
        case proved: (Inr pair)
        obtain pr pubs where pair: "pair = (pr, pubs)"
          by (cases pair)
        let ?obj = "JObject [(''proof'', pr), (''publicSignals'', pubs),
                             (''metadata'',
                              metadata (default_circuitType (prove_circuitType b))
                                (Date_now_at e (clock s2) - Date_now_at e (clock s))
                                (Date_now_at e (Suc (clock s2))))]"
        show ?thesis
        proof (cases "res_json e 200 ?obj")
          case (Inl err)
          with run Inr proved pair assms show ?thesis by (auto simp: status_caught)
        next
          case sent: (Inr r')
          with run Inr proved pair assms have r: "r = r'" by auto
          from res_json_prove_body [OF sent] obtain entries where
            entries: "SerializeJSONObject [(''proof'', pr), (''publicSignals'', pubs)] = Inr entries"
            and r': "r' = \<lparr>status = 200,
                body = Some (JsonObject (entries @
                  [(''metadata'',
                    JsonObject [(''circuitType'', JsonString (default_circuitType (prove_circuitType b))),
                                (''duration'', JsonNumber (of_int
                                   (Date_now_at e (clock s2) - Date_now_at e (clock s)))),
                                (''timestamp'', JsonNumber (of_int
                                   (Date_now_at e (Suc (clock s2)))))])]))\<rparr>"
            and fields: "metadata_fields r' = Some [''circuitType'', ''duration'', ''timestamp'']"
            by blast
          have "body r = Some (JsonObject (entries @
                  [(''metadata'',
                    JsonObject [(''circuitType'', JsonString (default_circuitType (prove_circuitType b))),
                                (''duration'', JsonNumber (of_int
                                   (Date_now_at e (clock s2) - Date_now_at e (clock s)))),
                                (''timestamp'', JsonNumber (of_int
                                   (Date_now_at e (Suc (clock s2)))))])]))"
            by (simp add: r r')
          moreover have "metadata_fields r = Some [''circuitType'', ''duration'', ''timestamp'']"
            using fields r by simp
          moreover have "fullProve e inp (wasm c) (zkey c) = Inr (pr, pubs)"
            using proved pair by simp
          ultimately show ?thesis
            using Some entries by blast
        qed
      qed
    qed
  qed
qed

theorem C7_prove_response_metadata_witness:
  "status (fst (post_prove (demo_env demo_circuit_files demo_service_proved)
                  demo_prove_body server_start)) = 200 \<and>
   metadata_fields (fst (post_prove (demo_env demo_circuit_files demo_service_proved)
                           demo_prove_body server_start)) =
     Some [''circuitType'', ''duration'', ''timestamp'']"
proof -
  have "status (fst (post_prove (demo_env demo_circuit_files demo_service_proved)
                  demo_prove_body server_start)) = 200"
    by (simp add: demo_post_prove)
  with C7_prove_response_metadata
    [of "demo_env demo_circuit_files demo_service_proved" demo_prove_body server_start
        "fst (post_prove (demo_env demo_circuit_files demo_service_proved)
                demo_prove_body server_start)"
        "snd (post_prove (demo_env demo_circuit_files demo_service_proved)
                demo_prove_body server_start)"]
  show ?thesis by auto
qed

theorem C7_durationMs_counterexample:
  "fst (post_prove (demo_env demo_circuit_files demo_service_proved) demo_prove_body server_start) =
     \<lparr>status = 200,
      body = Some (JsonObject
        [(''proof'', JsonObject [(''protocol'', JsonString ''groth16'')]),
         (''publicSignals'', JsonArray [JsonString ''1'']),
         (''metadata'', JsonObject [(''circuitType'', JsonString ''spending''),
                                    (''duration'', JsonNumber 1),
                                    (''timestamp'', JsonNumber 1002)])])\<rparr> \<and>
   metadata_fields (fst (post_prove (demo_env demo_circuit_files demo_service_proved)
                           demo_prove_body server_start)) \<noteq>
     Some [''circuitType'', ''durationMs'', ''timestamp'']"
  by (simp add: demo_post_prove metadata_fields_def)

lemma post_verify_key_failed:
  assumes "proof_of b = Some pr" and "publicSignals_of b = Some ps"
    and "\<not> falsy pr" and "\<not> falsy ps"
    and "loadCircuit e (default_circuitType (verify_circuitType b)) (snd (Date_now e s)) = (Inr c, s2)"
    and "fst (load_vKey e c s2) = Inl err"
  shows "post_verify e b s = (caught e err, snd (load_vKey e c s2))"
proof -
  have "load_vKey e c s2 = (Inl err, snd (load_vKey e c s2))"
    using assms(6) by (cases "load_vKey e c s2") simp
  from post_verify_run [OF assms(1-5) this] show ?thesis by simp
qed

lemma post_verify_key_used:
  assumes "proof_of b = Some pr" and "publicSignals_of b = Some ps"
    and "\<not> falsy pr" and "\<not> falsy ps"
    and "loadCircuit e (default_circuitType (verify_circuitType b)) (snd (Date_now e s)) = (Inr c, s2)"
    and "fst (load_vKey e c s2) = Inr vKey"
  shows "calls (snd (post_verify e b s)) =
           calls (snd (load_vKey e c s2)) @ [Groth16Verify vKey ps pr]"
proof -
  have "load_vKey e c s2 = (Inr vKey, snd (load_vKey e c s2))"
    using assms(6) by (cases "load_vKey e c s2") simp
  from post_verify_run [OF assms(1-5) this] show ?thesis
    by (simp split: sum.split)
qed

lemma demo_vKeyPath:
  "vKeyPath_of \<lparr>wasm = ''/c/spending.wasm'', zkey = ''/c/spending_final.zkey''\<rparr> =
     ''/c/spending_verification_key.json''"
  by (simp add: vKeyPath_of_def)

lemma demo_verify_loadCircuit:
  "loadCircuit (demo_env (demo_circuit_files @ others) proved)
       (default_circuitType (verify_circuitType demo_verify_body))
       (snd (Date_now (demo_env (demo_circuit_files @ others) proved) server_start)) =
     (Inr \<lparr>wasm = ''/c/spending.wasm'', zkey = ''/c/spending_final.zkey''\<rparr>,
      (called (ExistsSync ''/c/spending_final.zkey'')
         (called (ExistsSync ''/c/spending.wasm'')
            (snd (Date_now (demo_env (demo_circuit_files @ others) proved) server_start))))
        \<lparr>circuits := [(''spending'',
            \<lparr>wasm = ''/c/spending.wasm'', zkey = ''/c/spending_final.zkey''\<rparr>)]\<rparr>)"
proof -
  have "circuits (snd (Date_now (demo_env (demo_circuit_files @ others) proved) server_start)) = []"
    by (simp add: server_start_def)
  from demo_loadCircuit [OF this, of others proved] show ?thesis
    by (simp add: demo_verify_body_def default_circuitType_def)
qed

lemma demo_verify_body_fields:
  "proof_of demo_verify_body = Some (JObject [(''protocol'', JString ''groth16'')])"
  "publicSignals_of demo_verify_body = Some (JArray [JString ''1''])"
  "\<not> falsy (JObject [(''protocol'', JString ''groth16'')])"
  "\<not> falsy (JArray [JString ''1''])"
  by (simp_all add: demo_verify_body_def)

lemma indexOf_bound: "indexOf s pat = Some i \<Longrightarrow> i + length pat \<le> length s"
proof (induction s arbitrary: i)
  case Nil
  then show ?case by (simp split: if_splits)
next
  case (Cons c cs)
  show ?case
  proof (cases "take (length pat) (c # cs) = pat")
    case True
    then have "length (take (length pat) (c # cs)) = length pat" by simp
    then have "length pat \<le> length (c # cs)" by simp
    with True Cons.prems show ?thesis by simp
  next
    case False
    with Cons.prems obtain j where "indexOf cs pat = Some j" and "i = Suc j" by auto
    with Cons.IH [of j] show ?thesis by simp
  qed
qed

lemma indexOf_replace:
  "indexOf s pat = Some i \<Longrightarrow> replace s pat rep = take i s @ rep @ drop (i + length pat) s"
proof (induction s arbitrary: i)
  case Nil
  then show ?case by (simp split: if_splits)
next
  case (Cons c cs)
  show ?case
  proof (cases "take (length pat) (c # cs) = pat")
    case True
    with Cons.prems show ?thesis by simp
  next
    case False
    with Cons.prems obtain j where "indexOf cs pat = Some j" and "i = Suc j" by auto
    with Cons.IH [of j] False show ?thesis by simp
  qed
qed

lemma ending_only_vKeyPath:
  assumes "ending_only c"
  shows "vKeyPath_of c = vKey_beside c"
proof -
  let ?i = "length (zkey c) - length ''_final.zkey''"
  have i: "indexOf (zkey c) ''_final.zkey'' = Some ?i"
    using assms by (simp only: ending_only_def)
  from indexOf_bound [OF i] have "drop (?i + length ''_final.zkey'') (zkey c) = []"
    by simp
  with indexOf_replace [OF i, of "''_verification_key.json''"] show ?thesis
    by (simp only: vKeyPath_of_def vKey_beside_def append_Nil2)
qed

lemma demo_ending_only:
  "ending_only \<lparr>wasm = ''/c/spending.wasm'', zkey = ''/c/spending_final.zkey''\<rparr>"
  by (simp add: ending_only_def)

lemma demo_vKey_beside:
  "vKey_beside \<lparr>wasm = ''/c/spending.wasm'', zkey = ''/c/spending_final.zkey''\<rparr> =
     ''/c/spending_verification_key.json''"
  by (simp add: vKey_beside_def)

text \<open>
  Line 134 exchanges the first \<^verbatim>\<open>_final.zkey\<close> of the path. When the directory
  holds that text, the path it gives is not the file beside the proving key.
\<close>

lemma vKeyPath_of_first_occurrence:
  "vKeyPath_of demo_circuit_in_named_directory =
     ''/c/x_verification_key.json.d/spending_final.zkey'' \<and>
   vKey_beside demo_circuit_in_named_directory =
     ''/c/x_final.zkey.d/spending_verification_key.json'' \<and>
   \<not> ending_only demo_circuit_in_named_directory"
  by (simp add: vKeyPath_of_def vKey_beside_def ending_only_def demo_circuit_in_named_directory_def)

text \<open>
  C5, as amended. Take a verification request whose circuit loads, with a proving key
  whose path holds \<^verbatim>\<open>_final.zkey\<close> only as its ending. \<^verbatim>\<open>POST /verify\<close> looks for
  the verification-key file beside the proving key. If the file exists, the key is
  what reading and parsing the file gives, and the proving key is not consulted; if
  not, the key is derived from the proving key. The key found is the one given to
  \<^verbatim>\<open>groth16.verify\<close>. The answer is a 500 for the key when the file exists and
  cannot be read or parsed, or when it is absent and the derivation fails.
\<close>

theorem C5_verification_key_resolution:
  assumes "proof_of b = Some pr" and "publicSignals_of b = Some ps"
    and "\<not> falsy pr" and "\<not> falsy ps"
    and "loadCircuit e (default_circuitType (verify_circuitType b)) (snd (Date_now e s)) = (Inr c, s2)"
    and "ending_only c"
  shows "(existsSync e (vKey_beside c) \<longrightarrow>
            fst (load_vKey e c s2) =
              (case readFileSync e (vKey_beside c) of
                 Inl err \<Rightarrow> Inl err
               | Inr text \<Rightarrow> JSON_parse e text) \<and>
            calls (snd (load_vKey e c s2)) =
              calls s2 @ [ExistsSync (vKey_beside c), ReadFileSync (vKey_beside c)]) \<and>
         (\<not> existsSync e (vKey_beside c) \<longrightarrow>
            fst (load_vKey e c s2) = exportVerificationKey e (zkey c) \<and>
            calls (snd (load_vKey e c s2)) =
              calls s2 @ [ExistsSync (vKey_beside c), ExportVerificationKey (zkey c)]) \<and>
         (\<forall>err. fst (load_vKey e c s2) = Inl err \<longrightarrow>
            post_verify e b s = (caught e err, snd (load_vKey e c s2)) \<and>
            status (caught e err) = 500) \<and>
         (\<forall>vKey. fst (load_vKey e c s2) = Inr vKey \<longrightarrow>
            calls (snd (post_verify e b s)) =
              calls (snd (load_vKey e c s2)) @ [Groth16Verify vKey ps pr])"
  using post_verify_key_failed [OF assms(1-5)] post_verify_key_used [OF assms(1-5)]
    ending_only_vKeyPath [OF assms(6)]
  by (simp add: load_vKey_result load_vKey_state status_caught)

theorem C5_verification_key_resolution_witness:
  "loadCircuit (demo_env demo_circuit_files demo_service_proved)
       (default_circuitType (verify_circuitType demo_verify_body))
       (snd (Date_now (demo_env demo_circuit_files demo_service_proved) server_start)) =
     (Inr \<lparr>wasm = ''/c/spending.wasm'', zkey = ''/c/spending_final.zkey''\<rparr>,
      (called (ExistsSync ''/c/spending_final.zkey'')
         (called (ExistsSync ''/c/spending.wasm'')
            (snd (Date_now (demo_env demo_circuit_files demo_service_proved) server_start))))
        \<lparr>circuits := [(''spending'',
            \<lparr>wasm = ''/c/spending.wasm'', zkey = ''/c/spending_final.zkey''\<rparr>)]\<rparr>) \<and>
   ending_only \<lparr>wasm = ''/c/spending.wasm'', zkey = ''/c/spending_final.zkey''\<rparr> \<and>
   vKey_beside \<lparr>wasm = ''/c/spending.wasm'', zkey = ''/c/spending_final.zkey''\<rparr> =
     ''/c/spending_verification_key.json'' \<and>
   \<not> existsSync (demo_env demo_circuit_files demo_service_proved)
       ''/c/spending_verification_key.json'' \<and>
   calls (snd (post_verify (demo_env demo_circuit_files demo_service_proved)
                 demo_verify_body server_start)) =
     [ExistsSync ''/c/spending.wasm'', ExistsSync ''/c/spending_final.zkey'',
      ExistsSync ''/c/spending_verification_key.json'',
      ExportVerificationKey ''/c/spending_final.zkey'',
      Groth16Verify (JObject []) (JArray [JString ''1''])
        (JObject [(''protocol'', JString ''groth16'')])] \<and>
   existsSync (demo_env demo_bad_key_files demo_service_proved)
       ''/c/spending_verification_key.json'' \<and>
   status (fst (post_verify (demo_env demo_bad_key_files demo_service_proved)
                  demo_verify_body server_start)) = 500 \<and>
   calls (snd (post_verify (demo_env demo_bad_key_files demo_service_proved)
                 demo_verify_body server_start)) =
     [ExistsSync ''/c/spending.wasm'', ExistsSync ''/c/spending_final.zkey'',
      ExistsSync ''/c/spending_verification_key.json'',
      ReadFileSync ''/c/spending_verification_key.json'']"
proof -
  let ?e = "demo_env demo_circuit_files demo_service_proved"
  let ?b = "demo_env demo_bad_key_files demo_service_proved"
  let ?c = "\<lparr>wasm = ''/c/spending.wasm'', zkey = ''/c/spending_final.zkey''\<rparr>"
  have l: "loadCircuit ?e (default_circuitType (verify_circuitType demo_verify_body))
       (snd (Date_now ?e server_start)) =
     (Inr ?c,
      (called (ExistsSync ''/c/spending_final.zkey'')
         (called (ExistsSync ''/c/spending.wasm'') (snd (Date_now ?e server_start))))
        \<lparr>circuits := [(''spending'', ?c)]\<rparr>)"
    using demo_verify_loadCircuit [of "[]" demo_service_proved] by simp
  have x: "\<not> existsSync ?e ''/c/spending_verification_key.json''"
    by (simp add: demo_existsSync demo_circuit_files_def)
  have k: "exportVerificationKey ?e ''/c/spending_final.zkey'' = Inr (JObject [])"
    by (simp add: demo_env_def)
  have l': "loadCircuit ?b (default_circuitType (verify_circuitType demo_verify_body))
       (snd (Date_now ?b server_start)) =
     (Inr ?c,
      (called (ExistsSync ''/c/spending_final.zkey'')
         (called (ExistsSync ''/c/spending.wasm'') (snd (Date_now ?b server_start))))
        \<lparr>circuits := [(''spending'', ?c)]\<rparr>)"
    unfolding demo_bad_key_files_def by (rule demo_verify_loadCircuit)
  have x': "existsSync ?b ''/c/spending_verification_key.json''"
    by (simp add: demo_existsSync demo_bad_key_files_def demo_circuit_files_def)
  have r': "readFileSync ?b ''/c/spending_verification_key.json'' = Inr ''oops''"
    by (simp add: demo_env_def demo_bad_key_files_def demo_circuit_files_def)
  have p': "JSON_parse ?b ''oops'' = Inl (ErrorObj ''SyntaxError'' ''Unexpected token'' [])"
    by (simp add: demo_env_def)
  from C5_verification_key_resolution [OF demo_verify_body_fields l demo_ending_only] l x k
  have good: "calls (snd (post_verify ?e demo_verify_body server_start)) =
     [ExistsSync ''/c/spending.wasm'', ExistsSync ''/c/spending_final.zkey'',
      ExistsSync ''/c/spending_verification_key.json'',
      ExportVerificationKey ''/c/spending_final.zkey'',
      Groth16Verify (JObject []) (JArray [JString ''1''])
        (JObject [(''protocol'', JString ''groth16'')])]"
    by (simp add: demo_vKey_beside server_start_def)
  from C5_verification_key_resolution [OF demo_verify_body_fields l' demo_ending_only] x' r' p'
  have bad: "status (fst (post_verify ?b demo_verify_body server_start)) = 500 \<and>
    calls (snd (post_verify ?b demo_verify_body server_start)) =
     [ExistsSync ''/c/spending.wasm'', ExistsSync ''/c/spending_final.zkey'',
      ExistsSync ''/c/spending_verification_key.json'',
      ReadFileSync ''/c/spending_verification_key.json'']"
    by (simp add: demo_vKey_beside server_start_def)
  from l x good x' bad demo_ending_only demo_vKey_beside show ?thesis by simp
qed

theorem C5_unparsable_key_counterexample:
  "ending_only \<lparr>wasm = ''/c/spending.wasm'', zkey = ''/c/spending_final.zkey''\<rparr> \<and>
   existsSync (demo_env demo_bad_key_files demo_service_proved)
      (vKey_beside \<lparr>wasm = ''/c/spending.wasm'', zkey = ''/c/spending_final.zkey''\<rparr>) \<and>
   existsSync (demo_env demo_bad_key_files demo_service_proved)
      (vKeyPath_of \<lparr>wasm = ''/c/spending.wasm'', zkey = ''/c/spending_final.zkey''\<rparr>) \<and>
   exportVerificationKey (demo_env demo_bad_key_files demo_service_proved)
      ''/c/spending_final.zkey'' = Inr (JObject []) \<and>
   fst (post_verify (demo_env demo_bad_key_files demo_service_proved)
          demo_verify_body server_start) =
     \<lparr>status = 500, body = Some (JsonObject [(''error'', JsonString ''Unexpected token'')])\<rparr>"
proof -
  let ?e = "demo_env demo_bad_key_files demo_service_proved"
  let ?c = "\<lparr>wasm = ''/c/spending.wasm'', zkey = ''/c/spending_final.zkey''\<rparr>"
  let ?s2 = "(called (ExistsSync ''/c/spending_final.zkey'')
         (called (ExistsSync ''/c/spending.wasm'') (snd (Date_now ?e server_start))))
        \<lparr>circuits := [(''spending'', ?c)]\<rparr>"
  have l: "loadCircuit ?e (default_circuitType (verify_circuitType demo_verify_body))
       (snd (Date_now ?e server_start)) = (Inr ?c, ?s2)"
    unfolding demo_bad_key_files_def by (rule demo_verify_loadCircuit)
  have x: "existsSync ?e (vKeyPath_of ?c)"
    by (simp add: demo_vKeyPath demo_existsSync demo_bad_key_files_def demo_circuit_files_def)
  have x': "existsSync ?e (vKey_beside ?c)"
    by (simp add: demo_vKey_beside demo_existsSync demo_bad_key_files_def demo_circuit_files_def)
  have r: "readFileSync ?e (vKeyPath_of ?c) = Inr ''oops''"
    by (simp add: demo_vKeyPath demo_env_def demo_bad_key_files_def demo_circuit_files_def)
  have p: "JSON_parse ?e ''oops'' = Inl (ErrorObj ''SyntaxError'' ''Unexpected token'' [])"
    by (simp add: demo_env_def)
  have n: "NODE_ENV ?e \<noteq> Some ''development''"
    by (simp add: demo_env_def)
  have "fst (load_vKey ?e ?c ?s2) = Inl (ErrorObj ''SyntaxError'' ''Unexpected token'' [])"
    by (simp only: load_vKey_result x r p if_True sum.case)
  from post_verify_key_failed [OF demo_verify_body_fields l this]
  have "fst (post_verify ?e demo_verify_body server_start) =
      \<lparr>status = 500, body = Some (JsonObject [(''error'', JsonString ''Unexpected token'')])\<rparr>"
    by (simp add: caught_ErrorObj [OF n])
  moreover have "exportVerificationKey ?e ''/c/spending_final.zkey'' = Inr (JObject [])"
    by (simp add: demo_env_def)
  ultimately show ?thesis using x x' demo_ending_only by simp
qed

section \<open>The cache over the life of the service\<close>

lemma Map_get_append:
  "Map_get (m @ [(k, v)]) k' =
     (case Map_get m k' of Some w \<Rightarrow> Some w | None \<Rightarrow> if k = k' then Some v else None)"
  by (induction m) auto

lemma loadCircuit_circuits:
  "circuits (snd (loadCircuit e t s)) =
     (if Map_get (circuits s) t = None \<and> existsSync e (wasmPath_of e t) \<and>
         existsSync e (zkeyPath_of e t)
      then circuits s @ [(t, artifact e t)] else circuits s)"
proof (cases "Map_get (circuits s) t")
  case (Some c)
  then show ?thesis by (simp add: loadCircuit_cached)
next
  case None
  then show ?thesis
    by (cases "existsSync e (wasmPath_of e t)"; cases "existsSync e (zkeyPath_of e t)")
      (simp_all add: loadCircuit_no_wasm loadCircuit_no_zkey loadCircuit_loaded)
qed

lemma loadCircuit_result:
  "fst (loadCircuit e t s) =
     (case Map_get (circuits s) t of
        Some c \<Rightarrow> Inr c
      | None \<Rightarrow>
          if existsSync e (wasmPath_of e t) \<and> existsSync e (zkeyPath_of e t)
          then Inr (artifact e t) else Inl (failure e t))"
proof (cases "Map_get (circuits s) t")
  case (Some c)
  then show ?thesis by (simp add: loadCircuit_cached)
next
  case None
  then show ?thesis
    by (cases "existsSync e (wasmPath_of e t)"; cases "existsSync e (zkeyPath_of e t)")
      (simp_all add: loadCircuit_no_wasm loadCircuit_no_zkey loadCircuit_loaded failure_def)
qed

lemma loadCircuit_Inr_cached:
  assumes "loadCircuit e t s = (Inr c, s1)"
  shows "Map_get (circuits s1) t = Some c"
proof -
  have r: "fst (loadCircuit e t s) = Inr c" and s1: "s1 = snd (loadCircuit e t s)"
    using assms by simp_all
  show ?thesis
  proof (cases "Map_get (circuits s) t")
    case (Some c')
    with r s1 show ?thesis by (simp add: loadCircuit_cached)
  next
    case None
    with r have "existsSync e (wasmPath_of e t) \<and> existsSync e (zkeyPath_of e t)"
      and "c = artifact e t"
      by (auto simp: loadCircuit_result split: if_splits)
    with None show ?thesis
      by (simp add: s1 loadCircuit_circuits Map_get_append)
  qed
qed

lemma loadCircuit_keeps:
  "Map_get (circuits s) t = Some c \<Longrightarrow> Map_get (circuits (snd (loadCircuit e' t' s))) t = Some c"
  by (simp add: loadCircuit_circuits Map_get_append)

lemma loadCircuit_stable:
  "fst (loadCircuit e t (snd (loadCircuit e t' s))) = fst (loadCircuit e t s)"
  by (auto simp: loadCircuit_result loadCircuit_circuits Map_get_append split: option.splits)

lemma loadCircuit_consistent:
  "consistent e s \<Longrightarrow> consistent e (snd (loadCircuit e t s))"
  by (simp add: consistent_def loadCircuit_circuits artifact_def)

lemma load_vKey_circuits [simp]: "circuits (snd (load_vKey e c s)) = circuits s"
  by (simp add: load_vKey_state)

lemma post_prove_circuits:
  "circuits (snd (post_prove e b s)) = circuits s \<or>
   circuits (snd (post_prove e b s)) =
     circuits (snd (loadCircuit e (default_circuitType (prove_circuitType b)) s))"
proof (cases "input b = None \<or> (\<exists>v. input b = Some v \<and> falsy v)")
  case True
  then show ?thesis by (simp add: post_prove_missing)
next
  case False
  then obtain inp where inp: "input b = Some inp" "\<not> falsy inp" by auto
  let ?t = "default_circuitType (prove_circuitType b)"
  obtain loaded s2 where l: "loadCircuit e ?t (snd (Date_now e s)) = (loaded, s2)"
    by (cases "loadCircuit e ?t (snd (Date_now e s))")
  have "circuits s2 = circuits (snd (loadCircuit e ?t (snd (Date_now e s))))"
    using l by simp
  also have "\<dots> = circuits (snd (loadCircuit e ?t s))"
    by (simp add: loadCircuit_circuits)
  finally have "circuits (snd (post_prove e b s)) = circuits (snd (loadCircuit e ?t s))"
    unfolding post_prove_run [OF inp l]
    by (simp split: sum.split prod.split)
  then show ?thesis by simp
qed

lemma post_verify_circuits:
  "circuits (snd (post_verify e b s)) = circuits s \<or>
   circuits (snd (post_verify e b s)) =
     circuits (snd (loadCircuit e (default_circuitType (verify_circuitType b)) s))"
proof (cases "missing (proof_of b) \<or> missing (publicSignals_of b)")
  case True
  then show ?thesis by (simp add: post_verify_missing)
next
  case False
  then obtain pr ps where f: "proof_of b = Some pr" "publicSignals_of b = Some ps"
      "\<not> falsy pr" "\<not> falsy ps"
    by (auto simp: missing_def split: option.splits)
  let ?t = "default_circuitType (verify_circuitType b)"
  obtain loaded s2 where l: "loadCircuit e ?t (snd (Date_now e s)) = (loaded, s2)"
    by (cases "loadCircuit e ?t (snd (Date_now e s))")
  have "circuits s2 = circuits (snd (loadCircuit e ?t (snd (Date_now e s))))"
    using l by simp
  also have "\<dots> = circuits (snd (loadCircuit e ?t s))"
    by (simp add: loadCircuit_circuits)
  finally have s2: "circuits s2 = circuits (snd (loadCircuit e ?t s))" .
  have "circuits (snd (post_verify e b s)) = circuits s2"
  proof (cases loaded)
    case (Inl err)
    with post_verify_load_failed [OF f] l show ?thesis by simp
  next
    case (Inr c)
    obtain key s3 where k: "load_vKey e c s2 = (key, s3)"
      by (cases "load_vKey e c s2")
    then have "circuits s3 = circuits s2"
      using load_vKey_circuits [of e c s2] by simp
    with post_verify_run [OF f l [unfolded Inr] k] show ?thesis
      by (simp split: sum.split)
  qed
  with s2 show ?thesis by simp
qed

lemma get_circuits_circuits [simp]: "circuits (snd (get_circuits e s)) = circuits s"
  by (simp add: get_circuits_def Let_def split: sum.split)

lemma handle_circuits:
  "circuits (snd (handle e r s)) = circuits s \<or>
   (\<exists>t. circuits (snd (handle e r s)) = circuits (snd (loadCircuit e t s)))"
proof (cases r)
  case GetHealth
  then show ?thesis by (simp add: handle_def)
next
  case (PostProve b)
  with post_prove_circuits [of e b s] show ?thesis by (auto simp: handle_def)
next
  case (PostVerify b)
  with post_verify_circuits [of e b s] show ?thesis by (auto simp: handle_def)
next
  case GetCircuits
  then show ?thesis by (simp add: handle_def)
qed

lemma handle_keeps:
  assumes "Map_get (circuits s) t = Some c"
  shows "Map_get (circuits (snd (handle e r s))) t = Some c"
  using handle_circuits [of e r s] assms loadCircuit_keeps [OF assms] by auto

lemma serve_keeps:
  "Map_get (circuits s) t = Some c \<Longrightarrow> Map_get (circuits (serve rs s)) t = Some c"
proof (induction rs arbitrary: s)
  case Nil
  then show ?case by simp
next
  case (Cons er rs)
  obtain e r where er: "er = (e, r)" by (cases er)
  from Cons.prems have "Map_get (circuits (snd (handle e r s))) t = Some c"
    by (rule handle_keeps)
  then show ?case unfolding er by (simp add: Cons.IH)
qed

lemma loadCircuit_result_cong:
  "circuits s = circuits s' \<Longrightarrow> fst (loadCircuit e t s) = fst (loadCircuit e t s')"
  by (simp add: loadCircuit_result)

lemma handle_stable:
  "fst (loadCircuit e t (snd (handle e r s))) = fst (loadCircuit e t s)"
proof -
  from handle_circuits [of e r s] show ?thesis
  proof
    assume "circuits (snd (handle e r s)) = circuits s"
    then show ?thesis by (rule loadCircuit_result_cong)
  next
    assume "\<exists>t'. circuits (snd (handle e r s)) = circuits (snd (loadCircuit e t' s))"
    then obtain t' where "circuits (snd (handle e r s)) = circuits (snd (loadCircuit e t' s))" ..
    then have "fst (loadCircuit e t (snd (handle e r s))) =
        fst (loadCircuit e t (snd (loadCircuit e t' s)))"
      by (rule loadCircuit_result_cong)
    then show ?thesis by (simp add: loadCircuit_stable)
  qed
qed

lemma serve_stable:
  "fst (loadCircuit e t (serve (map (Pair e) rs) s)) = fst (loadCircuit e t s)"
  by (induction rs arbitrary: s) (simp_all add: handle_stable)

lemma consistent_cong: "circuits s = circuits s' \<Longrightarrow> consistent e s = consistent e s'"
  by (simp add: consistent_def)

lemma handle_consistent:
  assumes "consistent e s"
  shows "consistent e (snd (handle e r s))"
proof -
  from handle_circuits [of e r s] show ?thesis
  proof
    assume "circuits (snd (handle e r s)) = circuits s"
    then have "consistent e (snd (handle e r s)) = consistent e s"
      by (rule consistent_cong)
    with assms show ?thesis by simp
  next
    assume "\<exists>t. circuits (snd (handle e r s)) = circuits (snd (loadCircuit e t s))"
    then obtain t where "circuits (snd (handle e r s)) = circuits (snd (loadCircuit e t s))" ..
    then have "consistent e (snd (handle e r s)) = consistent e (snd (loadCircuit e t s))"
      by (rule consistent_cong)
    with assms show ?thesis by (simp add: loadCircuit_consistent)
  qed
qed

lemma serve_consistent:
  "consistent e s \<Longrightarrow> consistent e (serve (map (Pair e) rs) s)"
  by (induction rs arbitrary: s) (simp_all add: handle_consistent)

lemma consistent_start: "consistent e server_start"
  by (simp add: consistent_def server_start_def)

lemma consistent_result:
  assumes "consistent e s"
  shows "fst (loadCircuit e t s) =
     (if existsSync e (wasmPath_of e t) \<and> existsSync e (zkeyPath_of e t)
      then Inr (artifact e t) else Inl (failure e t))"
proof (cases "Map_get (circuits s) t")
  case None
  then show ?thesis by (simp add: loadCircuit_result)
next
  case (Some c)
  then have "(t, c) \<in> set (circuits s)" by (rule Map_get_Some_set)
  with assms have "c = artifact e t \<and> existsSync e (wasm c) \<and> existsSync e (zkey c)"
    by (auto simp: consistent_def list_all_iff)
  with Some show ?thesis by (auto simp: loadCircuit_result artifact_def)
qed

text \<open>
  C3. After one successful load of a circuit type, every later call for it returns
  the artifact of that load and leaves the state of the service as it is: no
  existence check is made and nothing is read. That holds whatever requests the
  service has handled in between and whatever the environment and the storage have
  become, for an entry of the cache is never removed or replaced.
\<close>

theorem C3_loadCircuit_idempotent:
  assumes "loadCircuit e t s = (Inr c, s1)"
  shows "loadCircuit e' t (serve rs s1) = (Inr c, serve rs s1) \<and>
         calls (snd (loadCircuit e' t (serve rs s1))) = calls (serve rs s1) \<and>
         Map_get (circuits (serve rs s1)) t = Some c"
proof -
  have "Map_get (circuits s1) t = Some c"
    using assms by (rule loadCircuit_Inr_cached)
  then have "Map_get (circuits (serve rs s1)) t = Some c"
    by (rule serve_keeps)
  then show ?thesis by (simp add: loadCircuit_cached)
qed

theorem C3_loadCircuit_idempotent_witness:
  "loadCircuit (demo_env demo_circuit_files demo_service_proved) ''spending'' server_start =
     (Inr \<lparr>wasm = ''/c/spending.wasm'', zkey = ''/c/spending_final.zkey''\<rparr>,
      (called (ExistsSync ''/c/spending_final.zkey'')
         (called (ExistsSync ''/c/spending.wasm'') server_start))
        \<lparr>circuits := [(''spending'',
            \<lparr>wasm = ''/c/spending.wasm'', zkey = ''/c/spending_final.zkey''\<rparr>)]\<rparr>) \<and>
   fst (loadCircuit (demo_env [] demo_service_proved) ''spending''
     (serve [(demo_env [] demo_service_proved, GetHealth)]
        ((called (ExistsSync ''/c/spending_final.zkey'')
            (called (ExistsSync ''/c/spending.wasm'') server_start))
           \<lparr>circuits := [(''spending'',
               \<lparr>wasm = ''/c/spending.wasm'', zkey = ''/c/spending_final.zkey''\<rparr>)]\<rparr>))) =
     Inr \<lparr>wasm = ''/c/spending.wasm'', zkey = ''/c/spending_final.zkey''\<rparr> \<and>
   calls (snd (loadCircuit (demo_env [] demo_service_proved) ''spending''
     (serve [(demo_env [] demo_service_proved, GetHealth)]
        ((called (ExistsSync ''/c/spending_final.zkey'')
            (called (ExistsSync ''/c/spending.wasm'') server_start))
           \<lparr>circuits := [(''spending'',
               \<lparr>wasm = ''/c/spending.wasm'', zkey = ''/c/spending_final.zkey''\<rparr>)]\<rparr>)))) =
     [ExistsSync ''/c/spending.wasm'', ExistsSync ''/c/spending_final.zkey'']"
proof -
  have c: "circuits server_start = []" by (simp add: server_start_def)
  have l: "loadCircuit (demo_env demo_circuit_files demo_service_proved) ''spending'' server_start =
     (Inr \<lparr>wasm = ''/c/spending.wasm'', zkey = ''/c/spending_final.zkey''\<rparr>,
      (called (ExistsSync ''/c/spending_final.zkey'')
         (called (ExistsSync ''/c/spending.wasm'') server_start))
        \<lparr>circuits := [(''spending'',
            \<lparr>wasm = ''/c/spending.wasm'', zkey = ''/c/spending_final.zkey''\<rparr>)]\<rparr>)"
    using demo_loadCircuit [OF c, of "[]" demo_service_proved] by simp
  from C3_loadCircuit_idempotent
    [OF l, of "demo_env [] demo_service_proved" "[(demo_env [] demo_service_proved, GetHealth)]"] l
  show ?thesis
    by (simp add: handle_def server_start_def)
qed

section \<open>Verification\<close>

lemma valid_of_caught: "valid_of (caught e err) = None"
  by (cases err)
    (simp_all add: valid_of_def caught_def res_json_def error_object_def JSON_stringify_def)

lemma valid_of_bad_request: "valid_of (bad_request m) = None"
  by (simp add: valid_of_def bad_request_def)

lemma valid_of_valid:
  "valid_of \<lparr>status = code, body = Some (JsonObject ((''valid'', JsonBool v) # ps))\<rparr> = Some v"
  by (simp add: valid_of_def)

lemma post_verify_outcome:
  assumes "proof_of b = Some pr" and "publicSignals_of b = Some ps"
    and "\<not> falsy pr" and "\<not> falsy ps"
  shows "(status (fst (post_verify e b s)), valid_of (fst (post_verify e b s))) =
     (case fst (loadCircuit e (default_circuitType (verify_circuitType b)) s) of
        Inl err \<Rightarrow> (500, None)
      | Inr c \<Rightarrow>
          (case fst (load_vKey e c server_start) of
             Inl err \<Rightarrow> (500, None)
           | Inr vKey \<Rightarrow>
               (case groth16_verify e vKey ps pr of
                  Inl err \<Rightarrow> (500, None)
                | Inr v \<Rightarrow> (200, Some v))))"
proof -
  let ?t = "default_circuitType (verify_circuitType b)"
  obtain loaded s2 where l: "loadCircuit e ?t (snd (Date_now e s)) = (loaded, s2)"
    by (cases "loadCircuit e ?t (snd (Date_now e s))")
  have "fst (loadCircuit e ?t s) = fst (loadCircuit e ?t (snd (Date_now e s)))"
    by (rule loadCircuit_result_cong) simp
  with l have loaded: "fst (loadCircuit e ?t s) = loaded" by simp
  show ?thesis
  proof (cases loaded)
    case (Inl err)
    with post_verify_load_failed [OF assms] l loaded show ?thesis
      by (simp add: status_caught valid_of_caught)
  next
    case (Inr c)
    obtain key s3 where k: "load_vKey e c s2 = (key, s3)"
      by (cases "load_vKey e c s2")
    have "fst (load_vKey e c server_start) = fst (load_vKey e c s2)"
      by (simp add: load_vKey_result)
    with k have key: "fst (load_vKey e c server_start) = key" by simp
    show ?thesis
      unfolding loaded Inr post_verify_run [OF assms l [unfolded Inr] k]
      by (simp add: key status_caught valid_of_caught res_json_valid_object valid_of_valid
          split: sum.split)
  qed
qed

lemma post_verify_same:
  assumes "fst (loadCircuit e (default_circuitType (verify_circuitType b)) s) =
           fst (loadCircuit e (default_circuitType (verify_circuitType b)) s')"
  shows "status (fst (post_verify e b s)) = status (fst (post_verify e b s')) \<and>
         valid_of (fst (post_verify e b s)) = valid_of (fst (post_verify e b s'))"
proof (cases "missing (proof_of b) \<or> missing (publicSignals_of b)")
  case True
  then show ?thesis by (simp add: post_verify_missing)
next
  case False
  then obtain pr ps where f: "proof_of b = Some pr" "publicSignals_of b = Some ps"
      "\<not> falsy pr" "\<not> falsy ps"
    by (auto simp: missing_def split: option.splits)
  have "(status (fst (post_verify e b s)), valid_of (fst (post_verify e b s))) =
        (status (fst (post_verify e b s')), valid_of (fst (post_verify e b s')))"
    unfolding post_verify_outcome [OF f] assms ..
  then show ?thesis by simp
qed

text \<open>
  C6, as amended. The handler reads the artifact of the circuit from the cache, so
  the answer to a verification request is a function of the request, of the world
  (the files, snarkjs) and of what the cache holds for the circuit type. In a world
  that stays as it is, the status and the \<open>valid\<close> of the answer are the same for the
  request made again in the same run, after any further requests, and from any two
  states of the service whose caches agree with the storage, as every state does
  that the service reaches from its start in that world.
\<close>

theorem C6_verify_deterministic:
  "status (fst (post_verify e b (serve (map (Pair e) rs) (snd (post_verify e b s))))) =
     status (fst (post_verify e b s)) \<and>
   valid_of (fst (post_verify e b (serve (map (Pair e) rs) (snd (post_verify e b s))))) =
     valid_of (fst (post_verify e b s)) \<and>
   (consistent e s1 \<and> consistent e s2 \<longrightarrow>
      status (fst (post_verify e b s1)) = status (fst (post_verify e b s2)) \<and>
      valid_of (fst (post_verify e b s1)) = valid_of (fst (post_verify e b s2))) \<and>
   consistent e (serve (map (Pair e) rs) server_start)"
proof -
  let ?t = "default_circuitType (verify_circuitType b)"
  have "serve (map (Pair e) rs) (snd (post_verify e b s)) =
        serve (map (Pair e) (PostVerify b # rs)) s"
    by (simp add: handle_def)
  then have "fst (loadCircuit e ?t (serve (map (Pair e) rs) (snd (post_verify e b s)))) =
        fst (loadCircuit e ?t s)"
    by (simp only: serve_stable)
  then have again:
    "status (fst (post_verify e b (serve (map (Pair e) rs) (snd (post_verify e b s))))) =
       status (fst (post_verify e b s)) \<and>
     valid_of (fst (post_verify e b (serve (map (Pair e) rs) (snd (post_verify e b s))))) =
       valid_of (fst (post_verify e b s))"
    by (rule post_verify_same)
  have "status (fst (post_verify e b s1)) = status (fst (post_verify e b s2)) \<and>
      valid_of (fst (post_verify e b s1)) = valid_of (fst (post_verify e b s2))"
    if "consistent e s1" and "consistent e s2"
  proof (rule post_verify_same)
    show "fst (loadCircuit e ?t s1) = fst (loadCircuit e ?t s2)"
      using that by (simp add: consistent_result)
  qed
  moreover have "consistent e (serve (map (Pair e) rs) server_start)"
    using consistent_start by (rule serve_consistent)
  ultimately show ?thesis using again by blast
qed

theorem C6_verify_deterministic_witness:
  "consistent (demo_env demo_circuit_files demo_service_proved) server_start \<and>
   consistent (demo_env demo_circuit_files demo_service_proved)
     (server_start\<lparr>circuits := [(''spending'',
        \<lparr>wasm = ''/c/spending.wasm'', zkey = ''/c/spending_final.zkey''\<rparr>)]\<rparr>) \<and>
   valid_of (fst (post_verify (demo_env demo_circuit_files demo_service_proved)
                    demo_verify_body server_start)) = Some True \<and>
   valid_of (fst (post_verify (demo_env demo_circuit_files demo_service_proved)
                    demo_verify_body
                    (server_start\<lparr>circuits := [(''spending'',
                       \<lparr>wasm = ''/c/spending.wasm'', zkey = ''/c/spending_final.zkey''\<rparr>)]\<rparr>))) =
     Some True"
proof -
  let ?e = "demo_env demo_circuit_files demo_service_proved"
  let ?c = "\<lparr>wasm = ''/c/spending.wasm'', zkey = ''/c/spending_final.zkey''\<rparr>"
  let ?s2 = "server_start\<lparr>circuits := [(''spending'', ?c)]\<rparr>"
  have c1: "consistent ?e server_start"
    by (simp add: consistent_def server_start_def)
  have c2: "consistent ?e ?s2"
    by (simp add: consistent_def artifact_def demo_wasmPath demo_zkeyPath demo_existsSync
        demo_circuit_files_def)
  have l: "fst (loadCircuit ?e (default_circuitType (verify_circuitType demo_verify_body)) ?s2) =
      Inr ?c"
    by (simp add: loadCircuit_cached demo_verify_body_def default_circuitType_def)
  have k: "fst (load_vKey ?e ?c server_start) = Inr (JObject [])"
    by (simp add: load_vKey_result demo_vKeyPath demo_existsSync demo_circuit_files_def demo_env_def)
  have g: "groth16_verify ?e (JObject []) (JArray [JString ''1''])
             (JObject [(''protocol'', JString ''groth16'')]) = Inr True"
    by (simp add: demo_env_def)
  have "valid_of (fst (post_verify ?e demo_verify_body ?s2)) = Some True"
    using post_verify_outcome [OF demo_verify_body_fields, of ?e ?s2]
    by (simp add: l k g)
  with C6_verify_deterministic [of ?e demo_verify_body "[]" server_start server_start ?s2] c1 c2
  show ?thesis by simp
qed

lemma post_verify_loaded_circuits:
  assumes "proof_of b = Some pr" and "publicSignals_of b = Some ps"
    and "\<not> falsy pr" and "\<not> falsy ps"
    and "loadCircuit e (default_circuitType (verify_circuitType b)) (snd (Date_now e s)) = (Inr c, s2)"
  shows "circuits (snd (post_verify e b s)) = circuits s2"
proof -
  obtain key s3 where k: "load_vKey e c s2 = (key, s3)"
    by (cases "load_vKey e c s2")
  then have "circuits s3 = circuits s2"
    using load_vKey_circuits [of e c s2] by simp
  with post_verify_run [OF assms k] show ?thesis
    by (simp split: sum.split)
qed

theorem C6_warm_cache_counterexample:
  "status (fst (post_verify (demo_env demo_files_without_wasm demo_service_proved)
                  demo_verify_body server_start)) = 500 \<and>
   valid_of (fst (post_verify (demo_env demo_files_without_wasm demo_service_proved)
                    demo_verify_body server_start)) = None \<and>
   status (fst (post_verify (demo_env demo_files_without_wasm demo_service_proved)
                  demo_verify_body
                  (serve [(demo_env demo_circuit_files demo_service_proved,
                           PostVerify demo_verify_body)] server_start))) = 200 \<and>
   valid_of (fst (post_verify (demo_env demo_files_without_wasm demo_service_proved)
                    demo_verify_body
                    (serve [(demo_env demo_circuit_files demo_service_proved,
                             PostVerify demo_verify_body)] server_start))) = Some True"
proof -
  let ?full = "demo_env demo_circuit_files demo_service_proved"
  let ?gone = "demo_env demo_files_without_wasm demo_service_proved"
  let ?c = "\<lparr>wasm = ''/c/spending.wasm'', zkey = ''/c/spending_final.zkey''\<rparr>"
  let ?warm = "serve [(?full, PostVerify demo_verify_body)] server_start"
  have t: "default_circuitType (verify_circuitType demo_verify_body) = ''spending''"
    by (simp add: demo_verify_body_def default_circuitType_def)
  have cold: "fst (loadCircuit ?gone ''spending'' server_start) =
      Inl (ErrorObj ''Error'' ''WASM file not found: /c/spending.wasm''
             ''Error: WASM file not found: /c/spending.wasm'')"
    using loadCircuit_no_wasm [OF server_start_uncached, of ?gone "''spending''"]
    by (simp add: demo_wasmPath demo_existsSync demo_new_Error demo_files_without_wasm_def)
  have l: "loadCircuit ?full (default_circuitType (verify_circuitType demo_verify_body))
       (snd (Date_now ?full server_start)) =
     (Inr ?c,
      (called (ExistsSync ''/c/spending_final.zkey'')
         (called (ExistsSync ''/c/spending.wasm'') (snd (Date_now ?full server_start))))
        \<lparr>circuits := [(''spending'', ?c)]\<rparr>)"
    using demo_verify_loadCircuit [of "[]" demo_service_proved] by simp
  have "circuits ?warm = [(''spending'', ?c)]"
    using post_verify_loaded_circuits [OF demo_verify_body_fields l]
    by (simp add: handle_def)
  then have warm: "fst (loadCircuit ?gone ''spending'' ?warm) = Inr ?c"
    by (simp add: loadCircuit_result)
  have k: "fst (load_vKey ?gone ?c server_start) = Inr (JObject [])"
    by (simp add: load_vKey_result demo_vKeyPath demo_existsSync demo_files_without_wasm_def
        demo_env_def)
  have g: "groth16_verify ?gone (JObject []) (JArray [JString ''1''])
             (JObject [(''protocol'', JString ''groth16'')]) = Inr True"
    by (simp add: demo_env_def)
  have "(status (fst (post_verify ?gone demo_verify_body server_start)),
         valid_of (fst (post_verify ?gone demo_verify_body server_start))) = (500, None)"
    unfolding post_verify_outcome [OF demo_verify_body_fields] t cold by simp
  moreover have "(status (fst (post_verify ?gone demo_verify_body ?warm)),
         valid_of (fst (post_verify ?gone demo_verify_body ?warm))) = (200, Some True)"
    unfolding post_verify_outcome [OF demo_verify_body_fields] t warm by (simp add: k g)
  ultimately show ?thesis by simp
qed

section \<open>Requests without a circuit type\<close>

lemma res_json_status: "res_json e code obj = Inr r \<Longrightarrow> status r = code"
  by (auto simp: res_json_def split: sum.splits)

lemma res_json_prove_circuitType:
  assumes "res_json e 200 (JObject [(''proof'', p), (''publicSignals'', q),
                                    (''metadata'', metadata t d ts)]) = Inr r"
  shows "circuitType_of r = Some (JsonString t)"
  using assms
  by (auto simp: res_json_def JSON_stringify_def metadata_def number_of_int_def
      circuitType_of_def split: sum.splits option.splits not_serializable.splits)

lemma post_prove_present:
  assumes "input b = Some inp" and "\<not> falsy inp"
  shows "status (fst (post_prove e b s)) \<noteq> 400 \<and>
         (status (fst (post_prove e b s)) = 200 \<longrightarrow>
            circuitType_of (fst (post_prove e b s)) =
              Some (JsonString (default_circuitType (prove_circuitType b))))"
proof -
  let ?t = "default_circuitType (prove_circuitType b)"
  obtain loaded s2 where l: "loadCircuit e ?t (snd (Date_now e s)) = (loaded, s2)"
    by (cases "loadCircuit e ?t (snd (Date_now e s))")
  note run = post_prove_run [OF assms l]
  show ?thesis
  proof (cases loaded)
    case (Inl err)
    with run show ?thesis by (simp add: status_caught)
  next
    case (Inr c)
    show ?thesis
    proof (cases "fullProve e inp (wasm c) (zkey c)")
      case (Inl err)
      with run Inr show ?thesis by (simp add: status_caught)
    next
      case proved: (Inr pair)
      obtain pr pubs where pair: "pair = (pr, pubs)" by (cases pair)
      let ?obj = "JObject [(''proof'', pr), (''publicSignals'', pubs),
                           (''metadata'',
                            metadata ?t (Date_now_at e (clock s2) - Date_now_at e (clock s))
                              (Date_now_at e (Suc (clock s2))))]"
      show ?thesis
      proof (cases "res_json e 200 ?obj")
        case (Inl err)
        with run Inr proved pair show ?thesis by (simp add: status_caught)
      next
        case sent: (Inr r)
        with run Inr proved pair have "fst (post_prove e b s) = r" by simp
        with res_json_status [OF sent] res_json_prove_circuitType [OF sent]
        show ?thesis by simp
      qed
    qed
  qed
qed

lemma post_prove_calls:
  assumes "input b = Some inp" and "\<not> falsy inp"
    and "loadCircuit e (default_circuitType (prove_circuitType b)) (snd (Date_now e s)) = (Inr c, s2)"
  shows "calls (snd (post_prove e b s)) = calls s2 @ [FullProve inp (wasm c) (zkey c)]"
  unfolding post_prove_run [OF assms]
  by (simp split: sum.split prod.split)

lemma post_prove_load_failed:
  assumes "input b = Some inp" and "\<not> falsy inp"
    and "loadCircuit e (default_circuitType (prove_circuitType b)) (snd (Date_now e s)) = (Inl err, s2)"
  shows "post_prove e b s = (caught e err, s2)"
  unfolding post_prove_run [OF assms] by simp

lemma valid_object_circuitType:
  "res_json e 200 (valid_object v t d ts) = Inr r \<Longrightarrow> circuitType_of r = Some (JsonString t)"
  by (auto simp: res_json_valid_object circuitType_of_def)

lemma post_verify_present:
  assumes "proof_of b = Some pr" and "publicSignals_of b = Some ps"
    and "\<not> falsy pr" and "\<not> falsy ps"
  shows "status (fst (post_verify e b s)) \<noteq> 400 \<and>
         (status (fst (post_verify e b s)) = 200 \<longrightarrow>
            circuitType_of (fst (post_verify e b s)) =
              Some (JsonString (default_circuitType (verify_circuitType b))))"
proof -
  let ?t = "default_circuitType (verify_circuitType b)"
  obtain loaded s2 where l: "loadCircuit e ?t (snd (Date_now e s)) = (loaded, s2)"
    by (cases "loadCircuit e ?t (snd (Date_now e s))")
  show ?thesis
  proof (cases loaded)
    case (Inl err)
    with post_verify_load_failed [OF assms] l show ?thesis by (simp add: status_caught)
  next
    case (Inr c)
    obtain key s3 where k: "load_vKey e c s2 = (key, s3)"
      by (cases "load_vKey e c s2")
    note run = post_verify_run [OF assms l [unfolded Inr] k]
    show ?thesis
    proof (cases key)
      case (Inl err)
      with run show ?thesis by (simp add: status_caught)
    next
      case key: (Inr vKey)
      show ?thesis
      proof (cases "groth16_verify e vKey ps pr")
        case (Inl err)
        with run key show ?thesis by (simp add: status_caught)
      next
        case (Inr isValid)
        with run key show ?thesis
          by (simp add: res_json_valid_object circuitType_of_def)
      qed
    qed
  qed
qed

lemma post_verify_calls:
  assumes "proof_of b = Some pr" and "publicSignals_of b = Some ps"
    and "\<not> falsy pr" and "\<not> falsy ps"
    and "loadCircuit e (default_circuitType (verify_circuitType b)) (snd (Date_now e s)) = (Inr c, s2)"
  shows "\<exists>later. calls (snd (post_verify e b s)) = calls s2 @ ExistsSync (vKeyPath_of c) # later"
proof -
  obtain key s3 where k: "load_vKey e c s2 = (key, s3)"
    by (cases "load_vKey e c s2")
  then have "s3 = snd (load_vKey e c s2)" by simp
  then have "\<exists>later. calls s3 = calls s2 @ ExistsSync (vKeyPath_of c) # later"
    by (simp add: load_vKey_state)
  then obtain later where "calls s3 = calls s2 @ ExistsSync (vKeyPath_of c) # later" ..
  with post_verify_run [OF assms k] show ?thesis
    by (auto split: sum.split)
qed

text \<open>
  C8. A request without a required property is answered with status 400 and an error
  object, and the service is left as it was: no entry enters the cache, no file is
  looked at and snarkjs is not called. That is so for \<^verbatim>\<open>POST /prove\<close> without
  \<open>input\<close> and for \<^verbatim>\<open>POST /verify\<close> without \<open>proof\<close> or without
  \<open>publicSignals\<close>. A request that has its required properties and no
  \<open>circuitType\<close> is not answered with 400: it is handled as the request for
  \<open>spending\<close>. The circuit loaded is \<open>spending\<close>, a failure to load it is the
  answer, the prover and the verifier are called with its artifact, and the metadata
  of a successful answer names \<open>spending\<close>.
\<close>

theorem C8_missing_field_is_bad_request:
  "(input pb = None \<longrightarrow>
      post_prove e pb s =
        (\<lparr>status = 400,
          body = Some (JsonObject [(''error'', JsonString ''Missing input parameter'')])\<rparr>, s)) \<and>
   (proof_of vb = None \<or> publicSignals_of vb = None \<longrightarrow>
      post_verify e vb s =
        (\<lparr>status = 400,
          body = Some (JsonObject [(''error'', JsonString ''Missing proof or publicSignals'')])\<rparr>, s)) \<and>
   post_prove e (pb\<lparr>prove_circuitType := None\<rparr>) s =
     post_prove e (pb\<lparr>prove_circuitType := Some ''spending''\<rparr>) s \<and>
   post_verify e (vb\<lparr>verify_circuitType := None\<rparr>) s =
     post_verify e (vb\<lparr>verify_circuitType := Some ''spending''\<rparr>) s \<and>
   (input pb = Some inp \<and> \<not> falsy inp \<and> prove_circuitType pb = None \<longrightarrow>
      status (fst (post_prove e pb s)) \<noteq> 400 \<and>
      (\<forall>err s2. loadCircuit e ''spending'' (snd (Date_now e s)) = (Inl err, s2) \<longrightarrow>
         post_prove e pb s = (caught e err, s2)) \<and>
      (\<forall>c s2. loadCircuit e ''spending'' (snd (Date_now e s)) = (Inr c, s2) \<longrightarrow>
         calls (snd (post_prove e pb s)) = calls s2 @ [FullProve inp (wasm c) (zkey c)]) \<and>
      (status (fst (post_prove e pb s)) = 200 \<longrightarrow>
         circuitType_of (fst (post_prove e pb s)) = Some (JsonString ''spending''))) \<and>
   (proof_of vb = Some pr \<and> publicSignals_of vb = Some ps \<and> \<not> falsy pr \<and> \<not> falsy ps \<and>
    verify_circuitType vb = None \<longrightarrow>
      status (fst (post_verify e vb s)) \<noteq> 400 \<and>
      (\<forall>err s2. loadCircuit e ''spending'' (snd (Date_now e s)) = (Inl err, s2) \<longrightarrow>
         post_verify e vb s = (caught e err, s2)) \<and>
      (\<forall>c s2. loadCircuit e ''spending'' (snd (Date_now e s)) = (Inr c, s2) \<longrightarrow>
         (\<exists>later. calls (snd (post_verify e vb s)) =
                    calls s2 @ ExistsSync (vKeyPath_of c) # later)) \<and>
      (status (fst (post_verify e vb s)) = 200 \<longrightarrow>
         circuitType_of (fst (post_verify e vb s)) = Some (JsonString ''spending'')))"
proof (intro conjI impI allI)
  assume "input pb = None"
  then show "post_prove e pb s =
        (\<lparr>status = 400,
          body = Some (JsonObject [(''error'', JsonString ''Missing input parameter'')])\<rparr>, s)"
    by (simp add: post_prove_missing bad_request_def)
next
  assume "proof_of vb = None \<or> publicSignals_of vb = None"
  then have "missing (proof_of vb) \<or> missing (publicSignals_of vb)"
    by (auto simp: missing_def)
  then show "post_verify e vb s =
        (\<lparr>status = 400,
          body = Some (JsonObject [(''error'', JsonString ''Missing proof or publicSignals'')])\<rparr>, s)"
    by (simp add: post_verify_missing bad_request_def)
next
  show "post_prove e (pb\<lparr>prove_circuitType := None\<rparr>) s =
     post_prove e (pb\<lparr>prove_circuitType := Some ''spending''\<rparr>) s"
    by (simp add: post_prove_def default_circuitType_def)
next
  show "post_verify e (vb\<lparr>verify_circuitType := None\<rparr>) s =
     post_verify e (vb\<lparr>verify_circuitType := Some ''spending''\<rparr>) s"
    by (simp add: post_verify_def default_circuitType_def)
next
  assume a: "input pb = Some inp \<and> \<not> falsy inp \<and> prove_circuitType pb = None"
  then have i: "input pb = Some inp" "\<not> falsy inp"
    and t: "default_circuitType (prove_circuitType pb) = ''spending''"
    by (simp_all add: default_circuitType_def)
  from post_prove_present [OF i, of e s] t
  show "status (fst (post_prove e pb s)) \<noteq> 400"
    and "status (fst (post_prove e pb s)) = 200 \<Longrightarrow>
         circuitType_of (fst (post_prove e pb s)) = Some (JsonString ''spending'')"
    by simp_all
  show "post_prove e pb s = (caught e err, s2)"
    if "loadCircuit e ''spending'' (snd (Date_now e s)) = (Inl err, s2)" for err s2
    using post_prove_load_failed [OF i, of e s err s2] that t by simp
  show "calls (snd (post_prove e pb s)) = calls s2 @ [FullProve inp (wasm c) (zkey c)]"
    if "loadCircuit e ''spending'' (snd (Date_now e s)) = (Inr c, s2)" for c s2
    using post_prove_calls [OF i, of e s c s2] that t by simp
next
  assume a: "proof_of vb = Some pr \<and> publicSignals_of vb = Some ps \<and> \<not> falsy pr \<and>
             \<not> falsy ps \<and> verify_circuitType vb = None"
  then have f: "proof_of vb = Some pr" "publicSignals_of vb = Some ps" "\<not> falsy pr" "\<not> falsy ps"
    and t: "default_circuitType (verify_circuitType vb) = ''spending''"
    by (simp_all add: default_circuitType_def)
  from post_verify_present [OF f, of e s] t
  show "status (fst (post_verify e vb s)) \<noteq> 400"
    and "status (fst (post_verify e vb s)) = 200 \<Longrightarrow>
         circuitType_of (fst (post_verify e vb s)) = Some (JsonString ''spending'')"
    by simp_all
  show "post_verify e vb s = (caught e err, s2)"
    if "loadCircuit e ''spending'' (snd (Date_now e s)) = (Inl err, s2)" for err s2
    using post_verify_load_failed [OF f, of e s err s2] that t by simp
  show "\<exists>later. calls (snd (post_verify e vb s)) =
                    calls s2 @ ExistsSync (vKeyPath_of c) # later"
    if "loadCircuit e ''spending'' (snd (Date_now e s)) = (Inr c, s2)" for c s2
    using post_verify_calls [OF f, of e s c s2] that t by simp
qed

theorem C8_missing_field_is_bad_request_witness:
  "input (demo_prove_body\<lparr>input := None\<rparr>) = None \<and>
   post_prove (demo_env demo_circuit_files demo_service_proved)
       (demo_prove_body\<lparr>input := None\<rparr>) server_start =
     (\<lparr>status = 400,
       body = Some (JsonObject [(''error'', JsonString ''Missing input parameter'')])\<rparr>,
      server_start) \<and>
   publicSignals_of (demo_verify_body\<lparr>publicSignals_of := None\<rparr>) = None \<and>
   post_verify (demo_env demo_circuit_files demo_service_proved)
       (demo_verify_body\<lparr>publicSignals_of := None\<rparr>) server_start =
     (\<lparr>status = 400,
       body = Some (JsonObject [(''error'', JsonString ''Missing proof or publicSignals'')])\<rparr>,
      server_start) \<and>
   input demo_prove_body = Some (JObject []) \<and> \<not> falsy (JObject []) \<and>
   prove_circuitType demo_prove_body = None \<and>
   status (fst (post_prove (demo_env demo_circuit_files demo_service_proved)
                  demo_prove_body server_start)) = 200 \<and>
   circuitType_of (fst (post_prove (demo_env demo_circuit_files demo_service_proved)
                         demo_prove_body server_start)) = Some (JsonString ''spending'') \<and>
   calls (snd (post_prove (demo_env demo_circuit_files demo_service_proved)
                 demo_prove_body server_start)) =
     [ExistsSync ''/c/spending.wasm'', ExistsSync ''/c/spending_final.zkey'',
      FullProve (JObject []) ''/c/spending.wasm'' ''/c/spending_final.zkey''] \<and>
   verify_circuitType demo_verify_body = None \<and>
   fst (post_verify (demo_env [] demo_service_proved) demo_verify_body server_start) =
     \<lparr>status = 500,
      body = Some (JsonObject
        [(''error'', JsonString ''WASM file not found: /c/spending.wasm'')])\<rparr>"
proof -
  let ?e = "demo_env demo_circuit_files demo_service_proved"
  let ?n = "demo_env [] demo_service_proved"
  let ?c = "\<lparr>wasm = ''/c/spending.wasm'', zkey = ''/c/spending_final.zkey''\<rparr>"
  have i: "input demo_prove_body = Some (JObject [])" "\<not> falsy (JObject [])"
      "prove_circuitType demo_prove_body = None"
    by (simp_all add: demo_prove_body_def)
  have v: "verify_circuitType demo_verify_body = None"
    by (simp add: demo_verify_body_def)
  have ok: "status (fst (post_prove ?e demo_prove_body server_start)) = 200"
    by (simp add: demo_post_prove)
  have c: "circuits (snd (Date_now ?e server_start)) = []"
    by (simp add: server_start_def)
  have l: "loadCircuit ?e ''spending'' (snd (Date_now ?e server_start)) =
     (Inr ?c,
      (called (ExistsSync ''/c/spending_final.zkey'')
         (called (ExistsSync ''/c/spending.wasm'') (snd (Date_now ?e server_start))))
        \<lparr>circuits := [(''spending'', ?c)]\<rparr>)"
    using demo_loadCircuit [OF c, of "[]" demo_service_proved] by simp
  have u: "Map_get (circuits (snd (Date_now ?n server_start))) ''spending'' = None"
    by (simp add: server_start_def)
  have l': "loadCircuit ?n ''spending'' (snd (Date_now ?n server_start)) =
     (Inl (ErrorObj ''Error'' ''WASM file not found: /c/spending.wasm''
             ''Error: WASM file not found: /c/spending.wasm''),
      called (ExistsSync ''/c/spending.wasm'') (snd (Date_now ?n server_start)))"
    using loadCircuit_no_wasm [OF u, of ?n]
    by (simp add: demo_wasmPath demo_existsSync demo_new_Error)
  have n: "NODE_ENV ?n \<noteq> Some ''development''"
    by (simp add: demo_env_def)
  from C8_missing_field_is_bad_request
    [of "demo_prove_body\<lparr>input := None\<rparr>" ?e server_start
        "demo_verify_body\<lparr>publicSignals_of := None\<rparr>"]
  have bad: "post_prove ?e (demo_prove_body\<lparr>input := None\<rparr>) server_start =
     (\<lparr>status = 400,
       body = Some (JsonObject [(''error'', JsonString ''Missing input parameter'')])\<rparr>,
      server_start) \<and>
    post_verify ?e (demo_verify_body\<lparr>publicSignals_of := None\<rparr>) server_start =
     (\<lparr>status = 400,
       body = Some (JsonObject [(''error'', JsonString ''Missing proof or publicSignals'')])\<rparr>,
      server_start)"
    by simp
  from C8_missing_field_is_bad_request
    [of demo_prove_body ?e server_start demo_verify_body "JObject []"] i ok l
  have good: "circuitType_of (fst (post_prove ?e demo_prove_body server_start)) =
      Some (JsonString ''spending'') \<and>
    calls (snd (post_prove ?e demo_prove_body server_start)) =
     [ExistsSync ''/c/spending.wasm'', ExistsSync ''/c/spending_final.zkey'',
      FullProve (JObject []) ''/c/spending.wasm'' ''/c/spending_final.zkey'']"
    by (simp add: server_start_def)
  from C8_missing_field_is_bad_request
    [of demo_prove_body ?n server_start demo_verify_body "JObject []"
        "JObject [(''protocol'', JString ''groth16'')]" "JArray [JString ''1'']"]
    demo_verify_body_fields v l'
  have failed: "fst (post_verify ?n demo_verify_body server_start) =
     \<lparr>status = 500,
      body = Some (JsonObject
        [(''error'', JsonString ''WASM file not found: /c/spending.wasm'')])\<rparr>"
    by (simp add: caught_ErrorObj [OF n])
  from bad good failed i v ok show ?thesis by simp
qed

end
